theory Spec2Isabelle
  imports Complex_Main "HOL-Library.Multiset"
begin

section \<open>JavaScript primitives used by the components\<close>

text \<open>
  A JavaScript \<^verbatim>\<open>Map\<close> keeps its keys in the order of their first insertion;
  \<^verbatim>\<open>set\<close> on a key that is present overwrites the value in place. The model is an
  association list with exactly that behaviour.
\<close>

type_synonym ('k, 'v) js_map = "('k \<times> 'v) list"

fun map_set :: "('k, 'v) js_map \<Rightarrow> 'k \<Rightarrow> 'v \<Rightarrow> ('k, 'v) js_map" where
  "map_set [] k v = [(k, v)]"
| "map_set ((k', v') # kvs) k v =
     (if k' = k then (k, v) # kvs else (k', v') # map_set kvs k v)"

definition map_get :: "('k, 'v) js_map \<Rightarrow> 'k \<Rightarrow> 'v option" where
  "map_get m k = map_of m k"

definition map_values :: "('k, 'v) js_map \<Rightarrow> 'v list" where
  "map_values m = map snd m"

text \<open>\<^verbatim>\<open>new Map(entries)\<close>: the entries are set one after the other.\<close>

definition new_Map :: "('k \<times> 'v) list \<Rightarrow> ('k, 'v) js_map" where
  "new_Map entries = fold (\<lambda>(k, v) m. map_set m k v) entries []"

text \<open>\<^verbatim>\<open>Array.prototype.find\<close>: the first element satisfying the predicate.\<close>

definition array_find :: "('a \<Rightarrow> bool) \<Rightarrow> 'a list \<Rightarrow> 'a option" where
  "array_find P xs = List.find P xs"

section \<open>The plan document (types)\<close>

text \<open>
  \<^verbatim>\<open>content: string | string[] | Record<string, any>\<close>: free text, a list of entries, or
  a key-value mapping, nested.
\<close>

datatype section_content =
    Text string
  | Items "section_content list"
  | Mapping "(string \<times> section_content) list"

text \<open>
  A section object. The title is optional in the model because
  \<^verbatim>\<open>{ ...undefined, content: c }\<close>, which a write past the end of the array produces, is an
  object with a content and no title.
\<close>

record plan_section =
  section_title :: "string option"
  content :: section_content

text \<open>
  \<^verbatim>\<open>AccountPlan\<close>. A history entry is itself a plan state (a snapshot). An array slot of
  \<^verbatim>\<open>sections\<close> is \<open>None\<close> when it is an empty slot (it reads as \<^verbatim>\<open>undefined\<close>).
\<close>

datatype account_plan = AccountPlan
  (plan_id: string)
  (userId: string)
  (company: string)
  (goal: string)
  (plan_title: "string option")
  (createdAt: string)
  (updatedAt: string)
  (version: int)
  (sections: "plan_section option list")
  (history: "account_plan list option")

text \<open>\<^verbatim>\<open>{ ...p, sections: newSections }\<close>\<close>

definition with_sections :: "account_plan \<Rightarrow> plan_section option list \<Rightarrow> account_plan" where
  "with_sections p newSections =
     AccountPlan (plan_id p) (userId p) (company p) (goal p) (plan_title p) (createdAt p)
       (updatedAt p) (version p) newSections (history p)"

record attached_file =
  file_id :: string
  filename :: string
  name :: "string option"

section \<open>ArtifactCanvas: the version store\<close>

record version_entry =
  actualVersion :: int
  displayVersion :: int
  entry_updatedAt :: string
  isCurrent :: bool

record canvas_state =
  plan :: "account_plan option"
  displayPlan :: "account_plan option"
  expandedSections :: "string \<rightharpoonup> bool"
  isEditing :: bool
  editState :: "account_plan option"
  historyIndex :: int
  sessionFiles :: "attached_file list"
  showVersionPanel :: bool

text \<open>\<^verbatim>\<open>[...(plan.history || []), plan]\<close>\<close>

definition candidates :: "account_plan \<Rightarrow> account_plan list" where
  "candidates p = (case history p of None \<Rightarrow> [] | Some h \<Rightarrow> h) @ [p]"

text \<open>
  \<^verbatim>\<open>availableVersions\<close> (the \<^verbatim>\<open>useMemo\<close> over \<^verbatim>\<open>plan\<close>): the candidates are put in a
  \<^verbatim>\<open>Map\<close> keyed by version, the values are sorted by version and mapped to the display
  format.
\<close>

definition availableVersions :: "account_plan option \<Rightarrow> version_entry list" where
  "availableVersions pl =
     (case pl of
        None \<Rightarrow> []
      | Some p \<Rightarrow>
          (let versionMap = fold (\<lambda>c m. map_set m (version c) c) (candidates p) [];
               unique = map_values versionMap;
               sorted_unique = sort_key version unique
           in map (\<lambda>c. \<lparr>actualVersion = version c, displayVersion = version c,
                         entry_updatedAt = updatedAt c,
                         isCurrent = (version c = version p)\<rparr>) sorted_unique))"

text \<open>
  The click handler of an entry of the version panel:
  \<^verbatim>\<open>setHistoryIndex(val === plan.version ? -1 : val); setShowVersionPanel(false)\<close>.
  The panel is rendered only when a plan is loaded.
\<close>

definition onVersionClick :: "int \<Rightarrow> canvas_state \<Rightarrow> canvas_state" where
  "onVersionClick val st =
     (case plan st of
        None \<Rightarrow> st
      | Some p \<Rightarrow> st\<lparr>historyIndex := (if val = version p then - 1 else val),
                      showVersionPanel := False\<rparr>)"

text \<open>
  Selecting the current view, in the words of the specification: the view pointer takes
  the sentinel (the \<open>-1\<close> that \<^verbatim>\<open>setHistoryIndex(-1)\<close> stores when a plan is loaded or an
  edit starts), and the panel closes as after any selection. The source has no handler of
  its own for it; this is the state the click handler is compared with.
\<close>

definition selectCurrent :: "canvas_state \<Rightarrow> canvas_state" where
  "selectCurrent st = st\<lparr>historyIndex := - 1, showVersionPanel := False\<rparr>"

text \<open>The effect on \<^verbatim>\<open>[historyIndex, plan]\<close> that chooses the displayed document.\<close>

definition historyNavigation :: "canvas_state \<Rightarrow> canvas_state" where
  "historyNavigation st =
     (case plan st of
        None \<Rightarrow> st
      | Some p \<Rightarrow>
          if historyIndex st = - 1 \<or> historyIndex st \<ge> version p
          then st\<lparr>displayPlan := Some p\<rparr>
          else (case history p of
                  None \<Rightarrow> st
                | Some h \<Rightarrow>
                    if length h > 0
                    then (case array_find (\<lambda>s. version s = historyIndex st) h of
                            Some snapshot \<Rightarrow> st\<lparr>displayPlan := Some snapshot\<rparr>
                          | None \<Rightarrow> st\<lparr>displayPlan := Some p\<rparr>)
                    else st))"

text \<open>
  \<^verbatim>\<open>handleStartEdit\<close>. The deep copy \<^verbatim>\<open>JSON.parse(JSON.stringify(plan))\<close> of a value is the
  value itself in HOL.
\<close>

definition handleStartEdit :: "canvas_state \<Rightarrow> canvas_state" where
  "handleStartEdit st =
     (case plan st of
        None \<Rightarrow> st
      | Some p \<Rightarrow> st\<lparr>editState := Some p, isEditing := True, historyIndex := - 1\<rparr>)"

definition handleCancelEdit :: "canvas_state \<Rightarrow> canvas_state" where
  "handleCancelEdit st = st\<lparr>isEditing := False, editState := None\<rparr>"

text \<open>
  What the page shows besides the component state: the plans kept in local storage, the
  alerts shown to the user, and the console.
\<close>

record browser =
  local_plans :: "account_plan list"
  alerts :: "string list"
  console_errors :: "string list"

text \<open>\<^verbatim>\<open>storageService.savePlan\<close>: replace the stored plan with the same id, or append.\<close>

fun savePlan :: "account_plan \<Rightarrow> account_plan list \<Rightarrow> account_plan list" where
  "savePlan p [] = [p]"
| "savePlan p (q # qs) = (if plan_id q = plan_id p then p # qs else q # savePlan p qs)"

text \<open>\<^verbatim>\<open>storageService.getPlansForUser\<close>\<close>

definition getPlansForUser :: "string \<Rightarrow> account_plan list \<Rightarrow> account_plan list" where
  "getPlansForUser uid plans = filter (\<lambda>p. userId p = uid) plans"

text \<open>
  \<^verbatim>\<open>handleSaveEdit\<close>. The outcome of \<^verbatim>\<open>apiClient.updatePlan\<close> is a parameter: \<open>Inl\<close> is a
  rejected promise, \<open>Inr\<close> the plan the service returns (which the handler does not use).
  The result is the component state and the browser.
\<close>

definition handleSaveEdit ::
  "(string + account_plan) \<Rightarrow> canvas_state \<Rightarrow> browser \<Rightarrow> canvas_state \<times> browser" where
  "handleSaveEdit outcome st b =
     (case (editState st, plan st) of
        (Some es, Some p) \<Rightarrow>
          (let st' = st\<lparr>plan := Some es, displayPlan := Some es, isEditing := False\<rparr>
           in case outcome of
                Inr _ \<Rightarrow> (st', b\<lparr>local_plans := savePlan es (local_plans b)\<rparr>)
              | Inl e \<Rightarrow> (st', b\<lparr>console_errors := console_errors b @ [''Failed to save plan''],
                                  alerts := alerts b @ [''Failed to save changes'']\<rparr>))
      | _ \<Rightarrow> (st, b))"

text \<open>
  \<^verbatim>\<open>newSections[index] = { ...newSections[index], content: newContent }\<close> on a copy of the
  array. A write at or past the end extends the array: the slots in between stay empty and
  the new object has only a content.
\<close>

definition array_set_content ::
  "plan_section option list \<Rightarrow> nat \<Rightarrow> section_content \<Rightarrow> plan_section option list" where
  "array_set_content secs index newContent =
     (if index < length secs
      then secs[index := Some (case secs ! index of
                                 Some s \<Rightarrow> s\<lparr>content := newContent\<rparr>
                               | None \<Rightarrow> \<lparr>section_title = None, content = newContent\<rparr>)]
      else secs @ replicate (index - length secs) None
             @ [Some \<lparr>section_title = None, content = newContent\<rparr>])"

definition updateSectionContent :: "nat \<Rightarrow> section_content \<Rightarrow> canvas_state \<Rightarrow> canvas_state" where
  "updateSectionContent index newContent st =
     (case editState st of
        None \<Rightarrow> st
      | Some es \<Rightarrow>
          st\<lparr>editState := Some (with_sections es (array_set_content (sections es) index newContent))\<rparr>)"


subsection \<open>The version listing as the specification words it\<close>

text \<open>
  Deduplication by version number in which a later candidate wins: a candidate is dropped
  when a later one has the same version.
\<close>

fun dedup_later :: "account_plan list \<Rightarrow> account_plan list" where
  "dedup_later [] = []"
| "dedup_later (c # cs) =
     (if version c \<in> version ` set cs then dedup_later cs else c # dedup_later cs)"

text \<open>
  History followed by the live document, deduplicated with later entries winning, sorted
  ascending by version, the entry of the live version marked current.
\<close>

definition version_listing_spec :: "account_plan \<Rightarrow> version_entry list" where
  "version_listing_spec p =
     map (\<lambda>c. \<lparr>actualVersion = version c, displayVersion = version c,
                entry_updatedAt = updatedAt c, isCurrent = (version c = version p)\<rparr>)
       (sort_key version (dedup_later (candidates p)))"

text \<open>The last candidate of each version number, as a map.\<close>

definition last_with :: "account_plan list \<Rightarrow> int \<rightharpoonup> account_plan" where
  "last_with cs = map_of (map (\<lambda>c. (version c, c)) (rev cs))"

text \<open>A document at version 5 with snapshots of the versions 1, 3 and 5.\<close>

definition snapshot_of :: "int \<Rightarrow> string \<Rightarrow> account_plan" where
  "snapshot_of v stamp =
     AccountPlan ''plan-1'' ''user-1'' ''Acme'' ''grow'' None ''t0'' stamp v [] None"

definition example_plan :: account_plan where
  "example_plan =
     AccountPlan ''plan-1'' ''user-1'' ''Acme'' ''grow'' None ''t0'' ''live'' 5 []
       (Some [snapshot_of 1 ''t1'', snapshot_of 3 ''t3'', snapshot_of 5 ''t5''])"

section \<open>Strings\<close>

text \<open>
  Strings are lists of characters; the functions below are the \<^verbatim>\<open>String.prototype\<close>
  methods the chat component calls, on ASCII text.
\<close>

definition is_space :: "char \<Rightarrow> bool" where
  "is_space c = (c \<in> set [CHR 0x09, CHR 0x0A, CHR 0x0B, CHR 0x0C, CHR 0x0D, CHR '' ''])"

definition trim :: "string \<Rightarrow> string" where
  "trim s = rev (dropWhile is_space (rev (dropWhile is_space s)))"

text \<open>\<^verbatim>\<open>s.lastIndexOf(c)\<close>: the greatest index holding \<open>c\<close>, or \<open>-1\<close>.\<close>

definition lastIndexOf :: "string \<Rightarrow> char \<Rightarrow> int" where
  "lastIndexOf s c =
     (case filter (\<lambda>i. s ! i = c) (rev [0..<length s]) of
        [] \<Rightarrow> - 1
      | i # _ \<Rightarrow> int i)"

text \<open>
  \<^verbatim>\<open>s.substring(a, b)\<close>: both indices are clamped to the string and swapped when
  \<open>a > b\<close>; \<^verbatim>\<open>s.substring(a)\<close> runs to the end.
\<close>

definition substring :: "string \<Rightarrow> int \<Rightarrow> int \<Rightarrow> string" where
  "substring s a b =
     (let n = int (length s);
          a' = max 0 (min a n);
          b' = max 0 (min b n);
          lo = min a' b';
          hi = max a' b'
      in take (nat (hi - lo)) (drop (nat lo) s))"

definition substring_from :: "string \<Rightarrow> int \<Rightarrow> string" where
  "substring_from s a = substring s a (int (length s))"

fun starts_with :: "string \<Rightarrow> string \<Rightarrow> bool" where
  "starts_with s [] = True"
| "starts_with [] (p # ps) = False"
| "starts_with (c # cs) (p # ps) = (c = p \<and> starts_with cs ps)"

text \<open>\<^verbatim>\<open>s.includes(sub)\<close>: \<open>sub\<close> occurs in \<open>s\<close> at some position.\<close>

fun str_includes :: "string \<Rightarrow> string \<Rightarrow> bool" where
  "str_includes [] sub = (sub = [])"
| "str_includes (c # cs) sub = (starts_with (c # cs) sub \<or> str_includes cs sub)"

definition lower_char :: "char \<Rightarrow> char" where
  "lower_char c =
     (case map_of (zip ''ABCDEFGHIJKLMNOPQRSTUVWXYZ'' ''abcdefghijklmnopqrstuvwxyz'') c of
        Some l \<Rightarrow> l
      | None \<Rightarrow> c)"

definition toLowerCase :: "string \<Rightarrow> string" where
  "toLowerCase s = map lower_char s"

text \<open>\<^verbatim>\<open>n.toString()\<close> of an integer: its decimal digits.\<close>

fun digits_of :: "nat \<Rightarrow> string" where
  "digits_of n =
     (if n < 10 then [''0123456789'' ! n]
      else digits_of (n div 10) @ [''0123456789'' ! (n mod 10)])"

declare digits_of.simps [simp del]

definition int_toString :: "int \<Rightarrow> string" where
  "int_toString i = (if i < 0 then CHR ''-'' # digits_of (nat (- i)) else digits_of (nat i))"

text \<open>A string or \<^verbatim>\<open>null\<close> used as a condition: \<^verbatim>\<open>null\<close> and the empty string are falsy.\<close>

definition truthy :: "string option \<Rightarrow> bool" where
  "truthy s = (case s of None \<Rightarrow> False | Some x \<Rightarrow> x \<noteq> [])"

section \<open>ChatInterface: types\<close>

datatype role = User | Assistant

record research_task =
  task :: string
  task_id :: "int option"

record research_progress =
  current_step :: int
  total_steps :: int
  label :: string
  visual :: string
  tasks :: "research_task list option"
  duration :: "real option"

record chat_message =
  msg_id :: string
  msg_role :: role
  msg_content :: string
  timestamp :: string
  msg_isResearching :: "bool option"
  msg_researchProgress :: "research_progress option"

record user =
  user_id :: string
  user_name :: string
  email :: string
  passwordHash :: string
  user_createdAt :: string
  avatarUrl :: "string option"

datatype research_status = Idle | Researching | Done

text \<open>The payload of \<^verbatim>\<open>apiClient.sendChatMessage\<close> and what it resolves to.\<close>

record chat_request =
  req_userId :: string
  req_planId :: "string option"
  req_message :: string
  req_conversationId :: "string option"
  req_fileIds :: "string list"

record chat_response =
  assistantMessages :: "chat_message list option"
  updatedPlan :: "account_plan option"
  newVersionCreated :: "bool option"
  researchStatus :: "research_status option"
  progress :: "research_progress option"
  researchPlan :: "research_task list option"
  resp_attachedFiles :: "attached_file list option"

text \<open>What \<^verbatim>\<open>apiClient.getChatHistory\<close> resolves to.\<close>

record history_data =
  hist_messages :: "chat_message list"
  hist_attachedFiles :: "attached_file list option"

text \<open>
  The component: its props and the value of \<^verbatim>\<open>useAuth\<close> at the latest render, its state
  variables, and the ref \<^verbatim>\<open>latestProgressRef\<close>. A handler is a closure over the values of
  one render; where a handler can run after later renders (the send cycle continues after
  an \<^verbatim>\<open>await\<close> and from a timer), the model passes the captured render \<open>env\<close> and the
  live state separately. Plain reads (\<^verbatim>\<open>inputValue\<close>, \<^verbatim>\<open>selectedPlanId\<close>, ...) are reads of
  \<open>env\<close>; functional updates \<^verbatim>\<open>setX(prev => ...)\<close> and the ref act on the live state.
\<close>

record chat_state =
  selectedPlanId :: "string option"
  has_onPlanCreated :: bool
  has_onPlanUpdated :: bool
  currentUser :: "user option"
  messages :: "chat_message list"
  inputValue :: string
  isResearching :: bool
  researchProgress :: "research_progress option"
  researchStartTime :: int
  proposedPlan :: "research_task list option"
  activeResearchPlan :: "research_task list option"
  currentPlan :: "account_plan option"
  tempConversationId :: string
  attachedFiles :: "attached_file list"
  availableFiles :: "attached_file list"
  mentionQuery :: "string option"
  mentionIndex :: int
  isUploading :: bool
  isRecording :: bool
  speakingMessageId :: "string option"
  isPaused :: bool
  latestProgressRef :: "research_progress option"

text \<open>
  The readings a synchronous run of a handler takes from the environment: \<^verbatim>\<open>Date.now()\<close>,
  \<^verbatim>\<open>new Date().toISOString()\<close> and \<^verbatim>\<open>Math.random().toString(36).substr(2, 9)\<close>. One run
  is taken to read one instant.
\<close>

record clock =
  now_ms :: int
  now_iso :: string
  random_suffix :: string

text \<open>What a handler does outside the component.\<close>

datatype effect =
    PlanUpdated
  | PlanCreated string
  | Reload
  | ScheduleContinuation nat

text \<open>A \<^verbatim>\<open>TypeError\<close> raised while React applies a queued state updater.\<close>

datatype failure = UpdaterTypeError


section \<open>ChatInterface: the send cycle\<close>

text \<open>\<^verbatim>\<open>overrideMessage || inputValue\<close>\<close>

definition messageContent_of :: "string option \<Rightarrow> chat_state \<Rightarrow> string" where
  "messageContent_of overrideMessage env =
     (if truthy overrideMessage then the overrideMessage else inputValue env)"

text \<open>
  \<^verbatim>\<open>handleSendMessage\<close> up to the \<^verbatim>\<open>await\<close>: the guard, the optimistic update, the
  conversation id, and the request handed to \<^verbatim>\<open>apiClient.sendChatMessage\<close> (\<open>None\<close> when
  the guard returns).
\<close>

definition handleSendMessage_begin ::
  "chat_state \<Rightarrow> string option \<Rightarrow> bool \<Rightarrow> clock \<Rightarrow> chat_state
     \<Rightarrow> chat_state \<times> chat_request option" where
  "handleSendMessage_begin env overrideMessage isHidden clk st =
     (let messageContent = messageContent_of overrideMessage env in
      case currentUser env of
        None \<Rightarrow> (st, None)
      | Some u \<Rightarrow>
          if trim messageContent = [] then (st, None)
          else
            (let userMessage =
                   \<lparr>msg_id = int_toString (now_ms clk), msg_role = User,
                    msg_content = messageContent, timestamp = now_iso clk,
                    msg_isResearching = None, msg_researchProgress = None\<rparr>;
                 currentAttachedFiles = attachedFiles env;
                 st1 = (if \<not> isHidden
                        then st\<lparr>messages := messages st @ [userMessage],
                                inputValue := [],
                                attachedFiles := [],
                                researchProgress := None,
                                latestProgressRef := None,
                                activeResearchPlan :=
                                  (case proposedPlan env of
                                     Some pp \<Rightarrow> Some pp
                                   | None \<Rightarrow> activeResearchPlan st),
                                proposedPlan := None,
                                researchStartTime := now_ms clk\<rparr>
                        else st);
                 st2 = st1\<lparr>isResearching := True\<rparr>;
                 mint = (\<not> truthy (selectedPlanId env) \<and> tempConversationId env = []);
                 activeConversationId =
                   (if mint
                    then ''new-'' @ int_toString (now_ms clk) @ ''-'' @ random_suffix clk
                    else tempConversationId env);
                 st3 = (if mint then st2\<lparr>tempConversationId := activeConversationId\<rparr> else st2)
             in (st3,
                 Some \<lparr>req_userId = user_id u,
                       req_planId = selectedPlanId env,
                       req_message = messageContent,
                       req_conversationId =
                         (if truthy (selectedPlanId env) then None else Some activeConversationId),
                       req_fileIds = map file_id currentAttachedFiles\<rparr>)))"

text \<open>
  The updater of the transcript on a response that carries messages: the progress of the
  local messages is collected in a \<^verbatim>\<open>Map\<close> by id, and every message of the response takes
  \<^verbatim>\<open>progressMap.get(msg.id) || msg.researchProgress\<close>.
\<close>

definition reconcile :: "chat_message list \<Rightarrow> chat_message list \<Rightarrow> chat_message list" where
  "reconcile response_messages prev =
     (let progressMap = new_Map (map (\<lambda>m. (msg_id m, msg_researchProgress m)) prev)
      in map (\<lambda>msg. msg\<lparr>msg_researchProgress :=
                          (case map_get progressMap (msg_id msg) of
                             Some (Some p) \<Rightarrow> Some p
                           | _ \<Rightarrow> msg_researchProgress msg)\<rparr>)
           response_messages)"

text \<open>
  The updater that attaches the completed progress to the last message. On an empty
  transcript \<^verbatim>\<open>lastMsg\<close> is \<^verbatim>\<open>undefined\<close> and reading its role raises.
\<close>

definition attach_completion ::
  "research_progress \<Rightarrow> real \<Rightarrow> chat_message list \<Rightarrow> failure + chat_message list" where
  "attach_completion finalProgress dur prev =
     (if prev = [] then Inl UpdaterTypeError
      else
        (let lastMsg = prev ! (length prev - 1)
         in if msg_role lastMsg = Assistant
            then Inr (prev[length prev - 1 :=
                        lastMsg\<lparr>msg_researchProgress := Some (finalProgress\<lparr>duration := Some dur\<rparr>)\<rparr>])
            else Inr prev))"

text \<open>
  \<^verbatim>\<open>handleSendMessage\<close> after the \<^verbatim>\<open>await\<close> resolved, in the order of the source:
  transcript, plan, research status and progress, completion marker, proposed plan,
  continuation. \<open>env\<close> is the render the handler was created in, \<open>st\<close> the state when the
  response arrives.
\<close>

definition handleSendMessage_response ::
  "chat_state \<Rightarrow> chat_response \<Rightarrow> clock \<Rightarrow> chat_state \<Rightarrow> browser
     \<Rightarrow> failure + chat_state \<times> browser \<times> effect list" where
  "handleSendMessage_response env response clk st b =
     (let st1 = (case assistantMessages response of
                   Some ms \<Rightarrow> if length ms > 0 then st\<lparr>messages := reconcile ms (messages st)\<rparr> else st
                 | None \<Rightarrow> st);
          st2 = (case updatedPlan response of
                   Some up \<Rightarrow> st1\<lparr>currentPlan := Some up\<rparr>
                 | None \<Rightarrow> st1);
          b2 = (case updatedPlan response of
                  Some up \<Rightarrow> b\<lparr>local_plans := savePlan up (local_plans b)\<rparr>
                | None \<Rightarrow> b);
          eff2 = (case updatedPlan response of
                    Some up \<Rightarrow>
                      (if has_onPlanUpdated env then [PlanUpdated] else [])
                      @ (if \<not> truthy (selectedPlanId env) \<and> plan_id up \<noteq> []
                         then (if has_onPlanCreated env then [PlanCreated (plan_id up)] else [Reload])
                         else [])
                  | None \<Rightarrow> []);
          researching = (researchStatus response = Some Researching);
          st3 = st2\<lparr>isResearching := researching\<rparr>;
          st4 = (case progress response of
                   Some p \<Rightarrow> st3\<lparr>researchProgress := Some p, latestProgressRef := Some p\<rparr>
                 | None \<Rightarrow> st3);
          finalProgress = (case progress response of
                             Some p \<Rightarrow> Some p
                           | None \<Rightarrow> latestProgressRef st4);
          marked = (case finalProgress of
                      Some fp \<Rightarrow>
                        if isResearching env \<and> \<not> researching
                        then attach_completion fp
                               (real_of_int (now_ms clk - researchStartTime env) / 1000)
                               (messages st4)
                        else Inr (messages st4)
                    | None \<Rightarrow> Inr (messages st4))
      in case marked of
           Inl e \<Rightarrow> Inl e
         | Inr ms \<Rightarrow>
             (let st5 = st4\<lparr>messages := ms\<rparr>;
                  st6 = (case researchPlan response of
                           Some rp \<Rightarrow> st5\<lparr>proposedPlan := Some rp\<rparr>
                         | None \<Rightarrow> st5);
                  eff7 = (if researching then [ScheduleContinuation 100]
                          else if has_onPlanUpdated env then [PlanUpdated] else [])
              in Inr (st6, b2, eff2 @ eff7)))"

text \<open>
  The parts of the completion marker, named: \<^verbatim>\<open>response.progress || latestProgressRef.current\<close>
  (the response's progress, which the handler has just stored in the ref, or else what the
  ref held when the response arrived); the test
  \<^verbatim>\<open>isResearching && response.researchStatus !== "researching" && finalProgress\<close>; and
  \<^verbatim>\<open>(Date.now() - researchStartTime) / 1000\<close>.
\<close>

definition finalProgress_of :: "chat_response \<Rightarrow> chat_state \<Rightarrow> research_progress option" where
  "finalProgress_of response st =
     (case progress response of Some p \<Rightarrow> Some p | None \<Rightarrow> latestProgressRef st)"

definition completion_due :: "chat_state \<Rightarrow> chat_response \<Rightarrow> chat_state \<Rightarrow> bool" where
  "completion_due env response st =
     (isResearching env \<and> researchStatus response \<noteq> Some Researching
      \<and> finalProgress_of response st \<noteq> None)"

definition elapsed_seconds :: "chat_state \<Rightarrow> clock \<Rightarrow> real" where
  "elapsed_seconds env clk = real_of_int (now_ms clk - researchStartTime env) / 1000"



text \<open>
  The timer callback \<^verbatim>\<open>() => handleSendMessage("[CONTINUE_RESEARCH]", true)\<close>: it calls the
  handler of the render that scheduled it.
\<close>

definition continuation_fires ::
  "chat_state \<Rightarrow> clock \<Rightarrow> chat_state \<Rightarrow> chat_state \<times> chat_request option" where
  "continuation_fires env clk st =
     handleSendMessage_begin env (Some ''[CONTINUE_RESEARCH]'') True clk st"


section \<open>ChatInterface: switching the session binding\<close>

definition welcome_back :: "string \<Rightarrow> string" where
  "welcome_back co =
     ''Welcome back! Ready to dive deeper into **'' @ co
       @ ''**? I'm here to help refine your account plan or research any new developments.''"

definition welcome_plain :: string where
  "welcome_plain =
     ''Welcome! I'm your intelligent research assistant. Let's create a comprehensive account plan together - just tell me which company you'd like to explore.''"

definition welcome_new_text :: string where
  "welcome_new_text =
     ''Hi there! I'm excited to help you build a winning account plan. Which company has caught your interest? Let's uncover what makes them tick and create a strategy that gives you an edge.''"

text \<open>The fallback message of a bound plan; \<open>pl\<close> is the plan found in local storage.\<close>

definition welcome_message :: "account_plan option \<Rightarrow> clock \<Rightarrow> chat_message" where
  "welcome_message pl clk =
     \<lparr>msg_id = ''welcome'', msg_role = Assistant,
      msg_content = (case pl of Some p \<Rightarrow> welcome_back (company p) | None \<Rightarrow> welcome_plain),
      timestamp = now_iso clk, msg_isResearching = None, msg_researchProgress = None\<rparr>"

definition welcome_new_message :: "clock \<Rightarrow> chat_message" where
  "welcome_new_message clk =
     \<lparr>msg_id = ''welcome-new'', msg_role = Assistant, msg_content = welcome_new_text,
      timestamp = now_iso clk, msg_isResearching = None, msg_researchProgress = None\<rparr>"

text \<open>
  The effect on \<^verbatim>\<open>[selectedPlanId, currentUser]\<close>, synchronous part. With a plan id and a
  user it leaves a pending \<^verbatim>\<open>getChatHistory\<close> whose callbacks have captured the plan found
  in local storage; the second component is that plan.
\<close>

definition binding_effect ::
  "clock \<Rightarrow> browser \<Rightarrow> chat_state \<Rightarrow> chat_state \<times> account_plan option option" where
  "binding_effect clk b st =
     (let st0 = st\<lparr>messages := [],
                    isResearching := False,
                    researchProgress := None,
                    proposedPlan := None,
                    activeResearchPlan := None,
                    latestProgressRef := None\<rparr>
      in case currentUser st of
           Some u \<Rightarrow>
             if truthy (selectedPlanId st)
             then (let plans = getPlansForUser (user_id u) (local_plans b);
                       pl = array_find (\<lambda>p. plan_id p = the (selectedPlanId st)) plans
                   in (st0\<lparr>currentPlan := pl, tempConversationId := []\<rparr>, Some pl))
             else (st0\<lparr>currentPlan := None,
                       availableFiles := [],
                       tempConversationId :=
                         ''new-'' @ int_toString (now_ms clk) @ ''-'' @ random_suffix clk,
                       messages := [welcome_new_message clk]\<rparr>, None)
         | None \<Rightarrow>
             (st0\<lparr>currentPlan := None,
                  availableFiles := [],
                  tempConversationId :=
                    ''new-'' @ int_toString (now_ms clk) @ ''-'' @ random_suffix clk,
                  messages := [welcome_new_message clk]\<rparr>, None))"

text \<open>The \<^verbatim>\<open>then\<close> and \<^verbatim>\<open>catch\<close> callbacks of the history request.\<close>

definition history_resolved ::
  "account_plan option \<Rightarrow> clock \<Rightarrow> history_data \<Rightarrow> chat_state \<Rightarrow> chat_state" where
  "history_resolved pl clk data st =
     (let st1 = (if length (hist_messages data) > 0
                 then st\<lparr>messages := hist_messages data\<rparr>
                 else st\<lparr>messages := [welcome_message pl clk]\<rparr>)
      in st1\<lparr>availableFiles :=
               (case hist_attachedFiles data of Some fs \<Rightarrow> fs | None \<Rightarrow> [])\<rparr>)"

definition history_rejected :: "account_plan option \<Rightarrow> clock \<Rightarrow> chat_state \<Rightarrow> chat_state" where
  "history_rejected pl clk st =
     st\<lparr>messages := [welcome_message pl clk], availableFiles := []\<rparr>"

text \<open>
  A switch of the binding whose history request resolves with the given data (\<open>None\<close>: the
  request is rejected): the effect at \<open>clk\<close>, then the callback at \<open>clk'\<close>.
\<close>

definition switch_binding ::
  "clock \<Rightarrow> clock \<Rightarrow> history_data option \<Rightarrow> browser \<Rightarrow> chat_state \<Rightarrow> chat_state" where
  "switch_binding clk clk' fetched b st =
     (case binding_effect clk b st of
        (st1, None) \<Rightarrow> st1
      | (st1, Some pl) \<Rightarrow>
          (case fetched of
             Some data \<Rightarrow> history_resolved pl clk' data st1
           | None \<Rightarrow> history_rejected pl clk' st1))"

section \<open>ChatInterface: mentions\<close>

text \<open>\<^verbatim>\<open>handleInputChange\<close>; \<open>val\<close> and \<open>cursor\<close> are the value and the caret of the textarea.\<close>

definition handleInputChange :: "string \<Rightarrow> int \<Rightarrow> chat_state \<Rightarrow> chat_state" where
  "handleInputChange val cursor st =
     (let st1 = st\<lparr>inputValue := val\<rparr>;
          lastAt = lastIndexOf val (CHR ''@'');
          query = substring val (lastAt + 1) cursor
      in if lastAt \<noteq> - 1 \<and> cursor > lastAt \<and> \<not> str_includes query '' ''
         then st1\<lparr>mentionQuery := Some query, mentionIndex := lastAt\<rparr>
         else st1\<lparr>mentionQuery := None, mentionIndex := - 1\<rparr>)"

text \<open>\<^verbatim>\<open>f.filename || (f as any).name || fallback\<close>\<close>

definition file_label :: "attached_file \<Rightarrow> string \<Rightarrow> string" where
  "file_label f fallback =
     (if filename f \<noteq> [] then filename f
      else if truthy (name f) then the (name f)
      else fallback)"

text \<open>
  The entries of the suggestion menu, \<open>None\<close> when no mention is open: the available files,
  then the attached files not among them, filtered by the query, case-insensitively. With
  no entry left the menu renders nothing.
\<close>

definition mention_candidates :: "chat_state \<Rightarrow> attached_file list option" where
  "mention_candidates st =
     (case mentionQuery st of
        None \<Rightarrow> None
      | Some q \<Rightarrow>
          (let allFiles =
                 fold (\<lambda>f all. if array_find (\<lambda>af. file_id af = file_id f) all = None
                                then all @ [f] else all)
                   (attachedFiles st) (availableFiles st);
               filtered =
                 filter (\<lambda>f. str_includes (toLowerCase (file_label f [])) (toLowerCase q)) allFiles
           in Some filtered))"

text \<open>
  \<^verbatim>\<open>handleMentionSelect\<close>, the click handler of a menu entry. It runs in the render that
  shows the menu, so its reads are reads of the state.
\<close>

definition handleMentionSelect :: "attached_file \<Rightarrow> chat_state \<Rightarrow> chat_state" where
  "handleMentionSelect file st =
     (if mentionIndex st = - 1 then st
      else
        (let fname = file_label file ''file'';
             before = substring (inputValue st) 0 (mentionIndex st);
             queryLength = (case mentionQuery st of Some q \<Rightarrow> int (length q) | None \<Rightarrow> 0);
             after = substring_from (inputValue st) (mentionIndex st + queryLength + 1)
         in st\<lparr>inputValue := before @ ''@'' @ fname @ '' '' @ after,
                mentionQuery := None,
                mentionIndex := - 1,
                attachedFiles :=
                  (if array_find (\<lambda>f. file_id f = file_id file) (attachedFiles st) = None
                   then attachedFiles st @ [file]
                   else attachedFiles st)\<rparr>))"


section \<open>Example states\<close>

text \<open>
  A canvas showing the snapshot of version 3 of the example document with the version
  panel open; a canvas in edit mode with a two-section buffer; a browser with nothing
  stored.
\<close>

definition example_canvas :: canvas_state where
  "example_canvas =
     \<lparr>plan = Some example_plan, displayPlan = Some (snapshot_of 3 ''t3''),
      expandedSections = Map.empty, isEditing = False, editState = None,
      historyIndex = 3, sessionFiles = [], showVersionPanel = True\<rparr>"

definition editing_canvas :: canvas_state where
  "editing_canvas =
     \<lparr>plan = Some example_plan, displayPlan = Some example_plan,
      expandedSections = Map.empty, isEditing = True,
      editState = Some (with_sections example_plan
                    [Some \<lparr>section_title = Some ''Overview'', content = Text ''draft''\<rparr>,
                     Some \<lparr>section_title = Some ''Risks'', content = Items [Text ''churn'']\<rparr>]),
      historyIndex = - 1, sessionFiles = [], showVersionPanel = False\<rparr>"

definition empty_browser :: browser where
  "empty_browser = \<lparr>local_plans = [], alerts = [], console_errors = []\<rparr>"

text \<open>
  A local assistant message \<open>m1\<close> that carries a progress record with duration 42 and
  the copy of it the service returns, without progress; a signed-in user; a chat on plan
  \<open>plan-1\<close> whose transcript is the local message, and the same chat while researching
  with the service's copy as transcript; two responses; a clock.
\<close>

definition progress_42 :: research_progress where
  "progress_42 =
     \<lparr>current_step = 3, total_steps = 3, label = ''Summarising'', visual = ''done'',
      tasks = Some [\<lparr>task = ''Find revenue'', task_id = Some 1\<rparr>], duration = Some 42\<rparr>"

definition local_m1 :: chat_message where
  "local_m1 =
     \<lparr>msg_id = ''m1'', msg_role = Assistant, msg_content = ''Here is the plan.'',
      timestamp = ''2024-01-01T00:00:00.000Z'', msg_isResearching = None,
      msg_researchProgress = Some progress_42\<rparr>"

definition server_m1 :: chat_message where
  "server_m1 =
     \<lparr>msg_id = ''m1'', msg_role = Assistant, msg_content = ''Here is the plan.'',
      timestamp = ''2024-01-01T00:00:05.000Z'', msg_isResearching = None,
      msg_researchProgress = None\<rparr>"

definition example_user :: user where
  "example_user =
     \<lparr>user_id = ''user-1'', user_name = ''Ada'', email = ''ada@example.com'',
      passwordHash = ''aGFzaA=='', user_createdAt = ''t0'', avatarUrl = None\<rparr>"

definition example_chat :: chat_state where
  "example_chat =
     \<lparr>selectedPlanId = Some ''plan-1'', has_onPlanCreated = True, has_onPlanUpdated = True,
      currentUser = Some example_user, messages = [local_m1], inputValue = [],
      isResearching = False, researchProgress = None, researchStartTime = 1000,
      proposedPlan = None, activeResearchPlan = None, currentPlan = Some example_plan,
      tempConversationId = [], attachedFiles = [], availableFiles = [],
      mentionQuery = None, mentionIndex = - 1, isUploading = False, isRecording = False,
      speakingMessageId = None, isPaused = False, latestProgressRef = None\<rparr>"

definition researching_chat :: chat_state where
  "researching_chat = example_chat\<lparr>messages := [server_m1], isResearching := True\<rparr>"

definition server_response :: chat_response where
  "server_response =
     \<lparr>assistantMessages = Some [server_m1], updatedPlan = None, newVersionCreated = None,
      researchStatus = Some Done, progress = None, researchPlan = None,
      resp_attachedFiles = None\<rparr>"

definition empty_done_response :: chat_response where
  "empty_done_response =
     \<lparr>assistantMessages = Some [], updatedPlan = None, newVersionCreated = None,
      researchStatus = Some Done, progress = Some (progress_42\<lparr>duration := None\<rparr>),
      researchPlan = None, resp_attachedFiles = None\<rparr>"

definition clock_at :: "int \<Rightarrow> clock" where
  "clock_at t = \<lparr>now_ms = t, now_iso = ''2024-01-01T00:00:43.000Z'', random_suffix = ''k3j9x2m1q''\<rparr>"

text \<open>
  The researching chat after the user switched to plan \<open>plan-2\<close>, whose history is empty.
\<close>

definition switched_chat :: chat_state where
  "switched_chat =
     switch_binding (clock_at 43000) (clock_at 43050)
       (Some \<lparr>hist_messages = [], hist_attachedFiles = None\<rparr>) empty_browser
       (researching_chat\<lparr>selectedPlanId := Some ''plan-2''\<rparr>)"

text \<open>
  An empty history; a browser whose local storage holds the example plan of the example
  user; the files \<open>report.pdf\<close> (id 1) and \<open>notes.txt\<close> (id 2), and a chat in which both
  are available.
\<close>

definition empty_history :: history_data where
  "empty_history = \<lparr>hist_messages = [], hist_attachedFiles = None\<rparr>"

definition stored_browser :: browser where
  "stored_browser = empty_browser\<lparr>local_plans := [example_plan]\<rparr>"

definition report_pdf :: attached_file where
  "report_pdf = \<lparr>file_id = ''1'', filename = ''report.pdf'', name = None\<rparr>"

definition notes_txt :: attached_file where
  "notes_txt = \<lparr>file_id = ''2'', filename = ''notes.txt'', name = None\<rparr>"

definition mention_chat :: chat_state where
  "mention_chat = example_chat\<lparr>availableFiles := [report_pdf, notes_txt]\<rparr>"

text \<open>
  The example chat while researching, with the local \<open>m1\<close> as transcript; a progress
  record of a running research; a response that ends the research with the service's
  \<open>m1\<close> and that progress.
\<close>

definition tracked_chat :: chat_state where
  "tracked_chat = example_chat\<lparr>isResearching := True\<rparr>"

definition progress_now :: research_progress where
  "progress_now =
     \<lparr>current_step = 2, total_steps = 2, label = ''Comparing competitors'', visual = ''bar'',
      tasks = None, duration = None\<rparr>"

definition closing_response :: chat_response where
  "closing_response =
     \<lparr>assistantMessages = Some [server_m1], updatedPlan = None, newVersionCreated = None,
      researchStatus = Some Done, progress = Some progress_now,
      researchPlan = None, resp_attachedFiles = None\<rparr>"

section \<open>Properties of the version store\<close>

subsection \<open>The JavaScript map\<close>

lemma last_with_Cons:
  "last_with (c # cs) k = (case last_with cs k of Some x \<Rightarrow> Some x
       | None \<Rightarrow> if k = version c then Some c else None)"
  by (simp add: last_with_def map_add_def split: option.splits)

lemma last_with_dom: "(last_with cs k = None) = (k \<notin> version ` set cs)"
  by (auto simp: last_with_def map_of_eq_None_iff image_iff)

lemma last_with_Some: "last_with cs k = Some x \<Longrightarrow> version x = k \<and> x \<in> set cs"
  by (auto simp: last_with_def dest!: map_of_SomeD)

lemma map_of_map_set: "map_of (map_set m k v) = (map_of m)(k \<mapsto> v)"
  by (induction m k v rule: map_set.induct) auto

lemma fst_map_set: "fst ` set (map_set m k v) = insert k (fst ` set m)"
  by (induction m k v rule: map_set.induct) auto

lemma distinct_map_set: "distinct (map fst m) \<Longrightarrow> distinct (map fst (map_set m k v))"
  by (induction m k v rule: map_set.induct) (auto simp: fst_map_set)

lemma map_of_fold_set:
  "map_of (fold (\<lambda>c m. map_set m (version c) c) cs m0) k =
     (case last_with cs k of Some x \<Rightarrow> Some x | None \<Rightarrow> map_of m0 k)"
proof (induction cs arbitrary: m0)
  case Nil
  then show ?case by (simp add: last_with_def)
next
  case (Cons c cs)
  show ?case
    by (simp add: Cons.IH map_of_map_set last_with_Cons split: option.splits)
qed

lemma distinct_fold_set:
  "distinct (map fst m0) \<Longrightarrow> distinct (map fst (fold (\<lambda>c m. map_set m (version c) c) cs m0))"
  by (induction cs arbitrary: m0) (auto simp: distinct_map_set)

lemma set_versionMap:
  "set (map snd (fold (\<lambda>c m. map_set m (version c) c) cs [])) = {x. last_with cs (version x) = Some x}"
proof -
  let ?M = "fold (\<lambda>c m. map_set m (version c) c) cs []"
  have d: "distinct (map fst ?M)" by (rule distinct_fold_set) simp
  have mo: "\<And>k. map_of ?M k = last_with cs k"
    by (simp add: map_of_fold_set split: option.splits)
  show ?thesis
  proof (rule set_eqI, rule iffI)
    fix x assume "x \<in> set (map snd ?M)"
    then obtain k where "(k, x) \<in> set ?M" by auto
    with d have "map_of ?M k = Some x" by simp
    with mo have l: "last_with cs k = Some x" by simp
    with last_with_Some have "version x = k" by blast
    with l show "x \<in> {x. last_with cs (version x) = Some x}" by simp
  next
    fix x assume "x \<in> {x. last_with cs (version x) = Some x}"
    with mo have "map_of ?M (version x) = Some x" by simp
    then have "(version x, x) \<in> set ?M" by (rule map_of_SomeD)
    then show "x \<in> set (map snd ?M)" by force
  qed
qed

lemma distinct_versionMap:
  "distinct (map version (map snd (fold (\<lambda>c m. map_set m (version c) c) cs [])))"
proof -
  let ?M = "fold (\<lambda>c m. map_set m (version c) c) cs []"
  have d: "distinct (map fst ?M)" by (rule distinct_fold_set) simp
  have mo: "\<And>k. map_of ?M k = last_with cs k"
    by (simp add: map_of_fold_set split: option.splits)
  have "\<And>k x. (k, x) \<in> set ?M \<Longrightarrow> version x = k"
  proof -
    fix k x assume "(k, x) \<in> set ?M"
    with d have "map_of ?M k = Some x" by simp
    with mo last_with_Some show "version x = k" by auto
  qed
  then have e: "map (\<lambda>kv. version (snd kv)) ?M = map fst ?M"
    by (intro map_cong) auto
  show ?thesis unfolding map_map comp_def e using d .
qed

lemma set_dedup_later: "set (dedup_later cs) = {x. last_with cs (version x) = Some x}"
proof (induction cs)
  case Nil
  then show ?case by (simp add: last_with_def)
next
  case (Cons c cs)
  show ?case
  proof (cases "version c \<in> version ` set cs")
    case True
    then have r: "last_with cs (version c) \<noteq> None" by (simp add: last_with_dom)
    have "\<And>x. (last_with (c # cs) (version x) = Some x) = (last_with cs (version x) = Some x)"
    proof -
      fix x show "(last_with (c # cs) (version x) = Some x) = (last_with cs (version x) = Some x)"
      proof (cases "last_with cs (version x)")
        case None
        with r have "version x \<noteq> version c" by auto
        with None show ?thesis by (simp add: last_with_Cons)
      next
        case (Some y)
        then show ?thesis by (simp add: last_with_Cons)
      qed
    qed
    with True Cons.IH show ?thesis by simp
  next
    case False
    then have n: "last_with cs (version c) = None" by (simp add: last_with_dom)
    have "\<And>x. (last_with (c # cs) (version x) = Some x) =
                (x = c \<or> last_with cs (version x) = Some x)"
    proof -
      fix x show "(last_with (c # cs) (version x) = Some x) =
                (x = c \<or> last_with cs (version x) = Some x)"
      proof (cases "last_with cs (version x)")
        case None
        then show ?thesis using n by (auto simp: last_with_Cons)
      next
        case (Some y)
        then show ?thesis using n by (auto simp: last_with_Cons)
      qed
    qed
    with False Cons.IH show ?thesis by auto
  qed
qed

lemma dedup_later_subset: "set (dedup_later cs) \<subseteq> set cs"
  by (induction cs) auto

lemma distinct_dedup_later: "distinct (map version (dedup_later cs))"
  using dedup_later_subset by (induction cs) auto

lemma sort_key_unique:
  assumes "distinct (map f xs)" "distinct (map f ys)" "set xs = set ys"
  shows "sort_key f xs = sort_key f ys"
proof (rule properties_for_sort_key)
  have dx: "distinct xs" and dy: "distinct ys"
    using assms(1,2) by (auto simp: distinct_map)
  with assms(3) have m: "mset xs = mset ys"
    by (simp add: set_eq_iff_mset_eq_distinct)
  then show "mset (sort_key f ys) = mset xs" by simp
  show "sorted (map f (sort_key f ys))" by simp
  fix k assume "k \<in> set (sort_key f ys)"
  then have ky: "k \<in> set ys" by simp
  have ix: "inj_on f (set xs)" and iy: "inj_on f (set ys)"
    using assms(1,2) by (auto simp: distinct_map)
  have "filter (\<lambda>x. f k = f x) ys = filter (\<lambda>x. k = x) ys"
    using iy ky by (intro filter_cong) (auto dest: inj_onD)
  moreover have "filter (\<lambda>x. f k = f x) xs = filter (\<lambda>x. k = x) xs"
    using ix ky assms(3) by (intro filter_cong) (auto dest: inj_onD)
  moreover have "filter (\<lambda>x. k = x) ys = [k]" using dy ky
    by (induction ys) (auto simp: filter_empty_conv)
  moreover have "filter (\<lambda>x. k = x) xs = [k]" using dx ky assms(3)
    by (induction xs arbitrary: ys) (auto simp: filter_empty_conv)
  ultimately show "filter (\<lambda>x. f k = f x) (sort_key f ys) = filter (\<lambda>x. f k = f x) xs"
    by (simp add: filter_sort)
qed

lemma availableVersions_spec: "availableVersions (Some p) = version_listing_spec p"
proof -
  have "sort_key version (map snd (fold (\<lambda>c m. map_set m (version c) c) (candidates p) []))
        = sort_key version (dedup_later (candidates p))"
    by (rule sort_key_unique) (simp_all only: distinct_versionMap distinct_dedup_later set_versionMap set_dedup_later)
  then show ?thesis
    by (simp add: availableVersions_def version_listing_spec_def map_values_def)
qed


lemma filter_key_unique:
  "distinct (map f xs) \<Longrightarrow> x \<in> set xs \<Longrightarrow> filter (\<lambda>y. f y = f x) xs = [x]"
proof (induction xs)
  case Nil
  then show ?case by simp
next
  case (Cons a xs)
  show ?case
  proof (cases "a = x")
    case True
    with Cons.prems have "f x \<notin> f ` set xs" by simp
    then have "\<forall>y\<in>set xs. f y \<noteq> f x" by (metis imageI)
    then have "filter (\<lambda>y. f y = f x) xs = []" by (simp add: filter_empty_conv)
    with True show ?thesis by simp
  next
    case False
    with Cons.prems have "x \<in> set xs" and "f a \<noteq> f x" and "distinct (map f xs)" by auto
    with Cons.IH show ?thesis by simp
  qed
qed

lemma version_dedup_later: "version ` set (dedup_later cs) = version ` set cs"
  by (induction cs) auto

lemma live_in_dedup: "p \<in> set (dedup_later (candidates p))"
  by (simp add: set_dedup_later candidates_def last_with_def)

lemma listing_versions:
  "map actualVersion (version_listing_spec p) = map version (sort_key version (dedup_later (candidates p)))"
  by (simp add: version_listing_spec_def comp_def)

lemma listing_strictly_ascending: "sorted_wrt (<) (map actualVersion (version_listing_spec p))"
  unfolding listing_versions strict_sorted_iff
  using distinct_dedup_later[of "candidates p"]
  by (simp add: distinct_map)

lemma listing_version_set:
  "set (map actualVersion (version_listing_spec p)) = version ` set (candidates p)"
  unfolding listing_versions by (simp add: version_dedup_later)

lemma listing_marks:
  "e \<in> set (version_listing_spec p) \<Longrightarrow> isCurrent e = (actualVersion e = version p)"
  by (auto simp: version_listing_spec_def)

lemma listing_current:
  "filter isCurrent (version_listing_spec p) =
     [\<lparr>actualVersion = version p, displayVersion = version p,
       entry_updatedAt = updatedAt p, isCurrent = True\<rparr>]"
proof -
  let ?D = "sort_key version (dedup_later (candidates p))"
  have "distinct (map version ?D)"
    using distinct_dedup_later[of "candidates p"] by (simp add: distinct_map)
  moreover have "p \<in> set ?D" using live_in_dedup by simp
  ultimately have "filter (\<lambda>c. version c = version p) ?D = [p]"
    by (rule filter_key_unique)
  then show ?thesis
    by (simp add: version_listing_spec_def filter_map comp_def)
qed

lemma listing_example:
  "availableVersions (Some example_plan) =
     [\<lparr>actualVersion = 1, displayVersion = 1, entry_updatedAt = ''t1'', isCurrent = False\<rparr>,
      \<lparr>actualVersion = 3, displayVersion = 3, entry_updatedAt = ''t3'', isCurrent = False\<rparr>,
      \<lparr>actualVersion = 5, displayVersion = 5, entry_updatedAt = ''live'', isCurrent = True\<rparr>]"
  by (simp add: availableVersions_def candidates_def example_plan_def snapshot_of_def map_values_def)

text \<open>
  Claim C3. For a document with a history list and a live version, the version listing
  is: the history followed by the live document, deduplicated by version number with the
  later entry winning (so the live document overrides a history entry of its version),
  sorted ascending by version number, and exactly the entry of the live version is marked
  current. The listing computed through the \<^verbatim>\<open>Map\<close> equals the listing so described; its
  versions are strictly ascending and are the versions of the candidates; an entry is
  marked current exactly when its version is the live one; the only entry marked current
  carries the live document's data. For snapshots of the versions 1, 3 and 5 and a live
  document at version 5 the listing has three entries, ascending, with version 5 current.
\<close>

theorem version_listing:
  "availableVersions (Some p) = version_listing_spec p
   \<and> sorted_wrt (<) (map actualVersion (availableVersions (Some p)))
   \<and> set (map actualVersion (availableVersions (Some p))) = version ` set (candidates p)
   \<and> (\<forall>e \<in> set (availableVersions (Some p)). isCurrent e = (actualVersion e = version p))
   \<and> filter isCurrent (availableVersions (Some p)) =
        [\<lparr>actualVersion = version p, displayVersion = version p,
          entry_updatedAt = updatedAt p, isCurrent = True\<rparr>]
   \<and> availableVersions (Some example_plan) =
       [\<lparr>actualVersion = 1, displayVersion = 1, entry_updatedAt = ''t1'', isCurrent = False\<rparr>,
        \<lparr>actualVersion = 3, displayVersion = 3, entry_updatedAt = ''t3'', isCurrent = False\<rparr>,
        \<lparr>actualVersion = 5, displayVersion = 5, entry_updatedAt = ''live'', isCurrent = True\<rparr>]"
  unfolding availableVersions_spec [of p]
  using listing_strictly_ascending [of p] listing_version_set [of p] listing_marks [of _ p]
    listing_current [of p] listing_example
  by blast

theorem version_listing_witness:
  "filter isCurrent (availableVersions (Some example_plan)) =
     [\<lparr>actualVersion = 5, displayVersion = 5, entry_updatedAt = ''live'', isCurrent = True\<rparr>]
   \<and> map actualVersion (availableVersions (Some example_plan)) = [1, 3, 5]
   \<and> version ` set (candidates example_plan) = {1, 3, 5}"
proof -
  note t = version_listing [of example_plan]
  have v: "version example_plan = 5" and u: "updatedAt example_plan = ''live''"
    by (simp_all add: example_plan_def)
  from t have a: "filter isCurrent (availableVersions (Some example_plan)) =
     [\<lparr>actualVersion = version example_plan, displayVersion = version example_plan,
       entry_updatedAt = updatedAt example_plan, isCurrent = True\<rparr>]"
    by (elim conjE)
  from t have b: "availableVersions (Some example_plan) =
       [\<lparr>actualVersion = 1, displayVersion = 1, entry_updatedAt = ''t1'', isCurrent = False\<rparr>,
        \<lparr>actualVersion = 3, displayVersion = 3, entry_updatedAt = ''t3'', isCurrent = False\<rparr>,
        \<lparr>actualVersion = 5, displayVersion = 5, entry_updatedAt = ''live'', isCurrent = True\<rparr>]"
    by (elim conjE)
  from t have c: "set (map actualVersion (availableVersions (Some example_plan))) =
      version ` set (candidates example_plan)"
    by (elim conjE)
  have d: "map actualVersion (availableVersions (Some example_plan)) = [1, 3, 5]"
    unfolding b by simp
  from c [unfolded d] a [unfolded v u] d show ?thesis by auto
qed


text \<open>
  Claim C4. Selecting in the version panel the version number equal to the live version
  of the document gives the same component state as selecting the current view: the
  stored pointer is the sentinel \<open>-1\<close>, not the number, and the displayed document is
  the live one. Any other version number is stored as it is.
\<close>

theorem select_live_version_is_current:
  assumes "plan st = Some p"
  shows "onVersionClick (version p) st = selectCurrent st
       \<and> historyIndex (onVersionClick (version p) st) = - 1
       \<and> historyNavigation (onVersionClick (version p) st) = historyNavigation (selectCurrent st)
       \<and> displayPlan (historyNavigation (onVersionClick (version p) st)) = Some p
       \<and> (\<forall>v. v \<noteq> version p \<longrightarrow> historyIndex (onVersionClick v st) = v)"
  using assms by (simp add: onVersionClick_def selectCurrent_def historyNavigation_def)

theorem select_live_version_is_current_witness:
  "plan example_canvas = Some example_plan
   \<and> onVersionClick 5 example_canvas = selectCurrent example_canvas
   \<and> historyIndex (onVersionClick 5 example_canvas) = - 1
   \<and> historyIndex (onVersionClick 3 example_canvas) = 3"
proof -
  have p: "plan example_canvas = Some example_plan" by (simp add: example_canvas_def)
  have v: "version example_plan = 5" by (simp add: example_plan_def)
  note t = select_live_version_is_current [OF p, unfolded v]
  from t have a: "onVersionClick 5 example_canvas = selectCurrent example_canvas"
    by (elim conjE)
  from t have b: "historyIndex (onVersionClick 5 example_canvas) = - 1"
    by (elim conjE)
  from t have "(3::int) \<noteq> 5 \<longrightarrow> historyIndex (onVersionClick 3 example_canvas) = 3"
    by blast
  then have c: "historyIndex (onVersionClick 3 example_canvas) = 3" by simp
  from p a b c show ?thesis by (intro conjI)
qed

text \<open>
  Claim C5. Committing an edit buffer replaces the live document and the displayed
  document by the buffer, in every field, and leaves edit mode, whatever the outcome of
  the request to the service; the plan the service returns is not used. When the request
  fails, the user is alerted and the replacement stays; when it succeeds the buffer is
  also stored locally. With the view pointer at the current view (where starting the edit
  put it) the navigation effect keeps the buffer displayed.
\<close>

theorem commit_edit_buffer:
  assumes "editState st = Some buf" and "plan st = Some p"
  shows "fst (handleSaveEdit outcome st b)
           = st\<lparr>plan := Some buf, displayPlan := Some buf, isEditing := False\<rparr>
       \<and> handleSaveEdit (Inl e) st b
           = (st\<lparr>plan := Some buf, displayPlan := Some buf, isEditing := False\<rparr>,
              b\<lparr>console_errors := console_errors b @ [''Failed to save plan''],
                alerts := alerts b @ [''Failed to save changes'']\<rparr>)
       \<and> handleSaveEdit (Inr r) st b
           = (st\<lparr>plan := Some buf, displayPlan := Some buf, isEditing := False\<rparr>,
              b\<lparr>local_plans := savePlan buf (local_plans b)\<rparr>)
       \<and> (historyIndex st = - 1 \<longrightarrow>
            displayPlan (historyNavigation (fst (handleSaveEdit outcome st b))) = Some buf)"
  using assms by (cases outcome) (simp_all add: handleSaveEdit_def historyNavigation_def)

theorem commit_edit_buffer_witness:
  "plan (fst (handleSaveEdit (Inl ''Failed to update plan'') editing_canvas empty_browser))
     = editState editing_canvas
   \<and> isEditing (fst (handleSaveEdit (Inl ''Failed to update plan'') editing_canvas empty_browser)) = False
   \<and> alerts (snd (handleSaveEdit (Inl ''Failed to update plan'') editing_canvas empty_browser))
     = [''Failed to save changes'']"
proof -
  have e: "editState editing_canvas = Some (with_sections example_plan
                    [Some \<lparr>section_title = Some ''Overview'', content = Text ''draft''\<rparr>,
                     Some \<lparr>section_title = Some ''Risks'', content = Items [Text ''churn'']\<rparr>])"
    and p: "plan editing_canvas = Some example_plan"
    and h: "historyIndex editing_canvas = - 1"
    by (simp_all add: editing_canvas_def)
  from commit_edit_buffer [OF e p, of "Inl ''Failed to update plan''" empty_browser "''Failed to update plan''"]
  show ?thesis using e by (simp add: empty_browser_def)
qed

subsection \<open>Writing a section\<close>

lemma array_set_content_others:
  "j \<noteq> i \<Longrightarrow> j < length secs \<Longrightarrow> array_set_content secs i c ! j = secs ! j"
  by (simp add: array_set_content_def nth_append)

lemma array_set_content_length:
  "i < length secs \<Longrightarrow> length (array_set_content secs i c) = length secs"
  by (simp add: array_set_content_def)

lemma array_set_content_at:
  "i < length secs \<Longrightarrow> secs ! i = Some s \<Longrightarrow> array_set_content secs i c ! i = Some (s\<lparr>content := c\<rparr>)"
  by (simp add: array_set_content_def)

text \<open>
  Claim C8. Replacing the content of the section at an index of the edit buffer leaves
  every other section of the buffer as it was and leaves the id, user id, company, goal,
  title, timestamps, version and history of the document unchanged; nothing else of the
  component state changes. At an index inside the array the number of sections is kept
  and the section keeps its title and takes the new content.
\<close>

theorem update_section_frame:
  assumes "editState st = Some es"
  shows "(let es' = the (editState (updateSectionContent i c st)) in
          editState (updateSectionContent i c st) = Some es'
        \<and> (updateSectionContent i c st)\<lparr>editState := Some es\<rparr> = st
        \<and> plan_id es' = plan_id es \<and> userId es' = userId es \<and> company es' = company es
        \<and> goal es' = goal es \<and> plan_title es' = plan_title es \<and> createdAt es' = createdAt es
        \<and> updatedAt es' = updatedAt es \<and> version es' = version es \<and> history es' = history es
        \<and> (\<forall>j. j \<noteq> i \<and> j < length (sections es) \<longrightarrow> sections es' ! j = sections es ! j)
        \<and> (i < length (sections es) \<longrightarrow>
             length (sections es') = length (sections es)
           \<and> (\<forall>s. sections es ! i = Some s \<longrightarrow>
                 sections es' ! i = Some \<lparr>section_title = section_title s, content = c\<rparr>)))"
  using assms
  by (simp add: updateSectionContent_def with_sections_def Let_def array_set_content_others
      array_set_content_length array_set_content_at)

theorem update_section_frame_witness:
  "sections (the (editState (updateSectionContent 0 (Text ''final'') editing_canvas)))
     = [Some \<lparr>section_title = Some ''Overview'', content = Text ''final''\<rparr>,
        Some \<lparr>section_title = Some ''Risks'', content = Items [Text ''churn'']\<rparr>]
   \<and> version (the (editState (updateSectionContent 0 (Text ''final'') editing_canvas))) = 5"
proof -
  have e: "editState editing_canvas = Some (with_sections example_plan
                    [Some \<lparr>section_title = Some ''Overview'', content = Text ''draft''\<rparr>,
                     Some \<lparr>section_title = Some ''Risks'', content = Items [Text ''churn'']\<rparr>])"
    by (simp add: editing_canvas_def)
  note t = update_section_frame [OF e, of 0 "Text ''final''", unfolded Let_def]
  let ?es' = "the (editState (updateSectionContent 0 (Text ''final'') editing_canvas))"
  from t have v: "version ?es' = 5" by (simp add: with_sections_def example_plan_def)
  from t have l: "length (sections ?es') = 2" by (simp add: with_sections_def)
  from t have s0: "sections ?es' ! 0 = Some \<lparr>section_title = Some ''Overview'', content = Text ''final''\<rparr>"
    by (simp add: with_sections_def)
  from t have s1: "sections ?es' ! 1 = Some \<lparr>section_title = Some ''Risks'', content = Items [Text ''churn'']\<rparr>"
    by (simp add: with_sections_def)
  have "sections ?es' = [sections ?es' ! 0, sections ?es' ! 1]"
    using l by (cases "sections ?es'" rule: list.exhaust; simp; cases "tl (sections ?es')"; simp)
  with s0 s1 v show ?thesis by simp
qed

section \<open>Properties of the send cycle\<close>

subsection \<open>Reconciliation and the completion marker\<close>

lemma map_of_new_Map_fold:
  "map_of (fold (\<lambda>(k, v) m. map_set m k v) es m0) = map_of m0 ++ map_of (rev es)"
proof (induction es arbitrary: m0)
  case Nil
  then show ?case by simp
next
  case (Cons e es)
  obtain k v where e: "e = (k, v)" by (cases e)
  have "map_of (map_set m0 k v) ++ map_of (rev es) = map_of m0 ++ map_of (rev es @ [(k, v)])"
    by (rule ext) (simp add: map_of_map_set map_add_def split: option.splits)
  then show ?case using Cons.IH [of "map_set m0 k v"] by (simp add: e)
qed

lemma map_get_new_Map: "map_get (new_Map es) k = map_of (rev es) k"
  by (simp add: map_get_def new_Map_def map_of_new_Map_fold)

lemma map_get_last_entry:
  assumes "prev = xs @ m # ys" and "\<forall>y\<in>set ys. f y \<noteq> f m"
  shows "map_get (new_Map (map (\<lambda>x. (f x, g x)) prev)) (f m) = Some (g m)"
proof -
  have "map_of (map (\<lambda>x. (f x, g x)) (rev ys)) (f m) = None"
    using assms(2) by (auto simp: map_of_eq_None_iff image_iff)
  then show ?thesis
    by (simp add: map_get_new_Map assms(1) rev_map map_add_def)
qed

lemma reconcile_length: "length (reconcile auth prev) = length auth"
  by (simp add: reconcile_def)

lemma reconcile_reuses:
  assumes "prev = xs @ m # ys" and "\<forall>y\<in>set ys. msg_id y \<noteq> msg_id m"
    and "i < length auth" and "msg_id (auth ! i) = msg_id m"
    and "msg_researchProgress (auth ! i) = None"
  shows "msg_researchProgress (reconcile auth prev ! i) = msg_researchProgress m"
proof -
  have "map_get (new_Map (map (\<lambda>x. (msg_id x, msg_researchProgress x)) prev)) (msg_id m)
          = Some (msg_researchProgress m)"
    using assms(1,2) by (rule map_get_last_entry)
  then show ?thesis using assms(3,4,5)
    by (simp add: reconcile_def split: option.splits)
qed

lemma reconcile_example: "reconcile [server_m1] [local_m1] = [server_m1\<lparr>msg_researchProgress := Some progress_42\<rparr>]"
  by (simp add: reconcile_def new_Map_def map_get_def server_m1_def local_m1_def)

lemma map_of_find:
  "map_of (map (\<lambda>m. (key m, val m)) xs) k = map_option val (List.find (\<lambda>m. key m = k) xs)"
  by (induction xs) auto

lemma progressMap_get:
  "map_get (new_Map (map (\<lambda>m. (msg_id m, msg_researchProgress m)) prev)) k
     = map_option msg_researchProgress (List.find (\<lambda>m. msg_id m = k) (rev prev))"
  by (simp add: map_get_new_Map rev_map map_of_find)

lemma reconcile_exact:
  "reconcile auth prev =
     map (\<lambda>msg. msg\<lparr>msg_researchProgress :=
            (case List.find (\<lambda>m. msg_id m = msg_id msg) (rev prev) of
               Some m \<Rightarrow> (case msg_researchProgress m of
                            Some p \<Rightarrow> Some p
                          | None \<Rightarrow> msg_researchProgress msg)
             | None \<Rightarrow> msg_researchProgress msg)\<rparr>) auth"
  unfolding reconcile_def Let_def progressMap_get
  by (intro map_cong refl) (simp split: option.splits)

lemma reconcile_last_role:
  "auth \<noteq> [] \<Longrightarrow> msg_role (last (reconcile auth prev)) = msg_role (last auth)"
  by (simp add: reconcile_def last_map)

lemma attach_completion_exact:
  assumes "ms \<noteq> []"
  shows "attach_completion fp d ms =
           Inr (if msg_role (last ms) = Assistant
                then butlast ms @ [(last ms)\<lparr>msg_researchProgress := Some (fp\<lparr>duration := Some d\<rparr>)\<rparr>]
                else ms)"
proof -
  from assms have l: "ms ! (length ms - 1) = last ms" by (simp add: last_conv_nth)
  have u: "\<And>x. ms[length ms - 1 := x] = butlast ms @ [x]"
    using assms by (induction ms) (auto split: nat.splits)
  show ?thesis unfolding attach_completion_def Let_def l u using assms by simp
qed

lemma st1_messages:
  "messages (case am of
               Some ms \<Rightarrow> if length ms > 0 then st\<lparr>messages := reconcile ms (messages st)\<rparr> else st
             | None \<Rightarrow> st)
   = (case am of
        Some auth \<Rightarrow> if length auth > 0 then reconcile auth (messages st) else messages st
      | None \<Rightarrow> messages st)"
  by (simp split: option.splits)

lemma st1_ref:
  "latestProgressRef (case am of
               Some ms \<Rightarrow> if length ms > 0 then st\<lparr>messages := reconcile ms (messages st)\<rparr> else st
             | None \<Rightarrow> st) = latestProgressRef st"
  by (simp split: option.splits)

lemma response_isl:
  "isl (handleSendMessage_response env response clk st b)
     = (completion_due env response st
        \<and> (case assistantMessages response of
              Some auth \<Rightarrow> if length auth > 0 then reconcile auth (messages st) else messages st
            | None \<Rightarrow> messages st) = [])"
proof -
  let ?base = "case assistantMessages response of
              Some auth \<Rightarrow> if length auth > 0 then reconcile auth (messages st) else messages st
            | None \<Rightarrow> messages st"
  show ?thesis
  proof (cases "?base = []")
    case True
    show ?thesis
      unfolding handleSendMessage_response_def Let_def completion_due_def finalProgress_of_def
      by (cases "updatedPlan response"; cases "progress response"; cases "latestProgressRef st")
         (simp_all add: st1_messages st1_ref True attach_completion_def)
  next
    case False
    note ac = attach_completion_exact [OF False]
    show ?thesis
      unfolding handleSendMessage_response_def Let_def completion_due_def finalProgress_of_def
      by (cases "updatedPlan response"; cases "progress response"; cases "latestProgressRef st")
         (simp_all add: st1_messages st1_ref False ac)
  qed
qed

lemma response_messages_exact:
  assumes "(case assistantMessages response of
              Some auth \<Rightarrow> if length auth > 0 then reconcile auth (messages st) else messages st
            | None \<Rightarrow> messages st) = base"
    and "base \<noteq> []"
  shows "messages (fst (projr (handleSendMessage_response env response clk st b))) =
             (if completion_due env response st \<and> msg_role (last base) = Assistant
              then butlast base
                   @ [(last base)\<lparr>msg_researchProgress :=
                        Some ((the (finalProgress_of response st))
                                \<lparr>duration := Some (elapsed_seconds env clk)\<rparr>)\<rparr>]
              else base)"
proof -
  note ac = attach_completion_exact [OF assms(2)]
  show ?thesis
    unfolding handleSendMessage_response_def Let_def completion_due_def finalProgress_of_def
      elapsed_seconds_def
    by (cases "updatedPlan response"; cases "progress response"; cases "latestProgressRef st";
        cases "researchPlan response")
       (simp_all add: st1_messages st1_ref assms(1) ac)
qed

lemma response_messages_not_due:
  assumes "\<not> completion_due env response st"
  shows "messages (fst (projr (handleSendMessage_response env response clk st b))) =
             (case assistantMessages response of
                Some auth \<Rightarrow> if length auth > 0 then reconcile auth (messages st) else messages st
              | None \<Rightarrow> messages st)"
proof (cases "isResearching env \<and> researchStatus response \<noteq> Some Researching")
  case True
  with assms have n: "progress response = None" "latestProgressRef st = None"
    by (auto simp: completion_due_def finalProgress_of_def split: option.splits)
  show ?thesis
    unfolding handleSendMessage_response_def Let_def
    by (cases "updatedPlan response"; cases "researchPlan response")
       (simp_all add: st1_messages st1_ref n)
next
  case False
  show ?thesis
    unfolding handleSendMessage_response_def Let_def
    by (cases "updatedPlan response"; cases "progress response"; cases "latestProgressRef st";
        cases "researchPlan response")
       (simp_all add: st1_messages st1_ref False)
qed

lemma response_result:
  assumes "\<not> isl (handleSendMessage_response env response clk st b)"
  shows "\<exists>st' b' eff. handleSendMessage_response env response clk st b = Inr (st', b', eff)
           \<and> st' = fst (projr (handleSendMessage_response env response clk st b))"
  using assms by (cases "handleSendMessage_response env response clk st b") auto

text \<open>
  On an empty transcript with the completion marker due, and no messages in the response,
  the updater reads the role of a message that is not there.
\<close>

lemma response_fails_on_empty_transcript:
  assumes "assistantMessages response = None \<or> assistantMessages response = Some []"
    and "messages st = []" and "completion_due env response st"
  shows "handleSendMessage_response env response clk st b = Inl UpdaterTypeError"
proof -
  have "isl (handleSendMessage_response env response clk st b)"
    unfolding response_isl using assms by auto
  then obtain a where a: "handleSendMessage_response env response clk st b = Inl a"
    by (cases "handleSendMessage_response env response clk st b") auto
  show ?thesis unfolding a by (cases a) simp
qed

text \<open>
  Claim C1, as stated, fails on the transcript the response leaves: the completion marker
  of the same response can overwrite the progress the reconciliation has just reused. The
  handler was created while researching, the transcript is the local \<open>m1\<close> with duration
  42, and the response carries the service's \<open>m1\<close> without progress, status done and a
  progress record: \<open>m1\<close> ends with that record and the elapsed 7 seconds, not with the
  progress of the local message.
\<close>

theorem marker_overwrites_reused_progress:
  "assistantMessages closing_response = Some [server_m1]
   \<and> messages tracked_chat = [local_m1]
   \<and> msg_id server_m1 = msg_id local_m1
   \<and> msg_researchProgress server_m1 = None
   \<and> msg_researchProgress local_m1 = Some progress_42
   \<and> \<not> isl (handleSendMessage_response tracked_chat closing_response (clock_at 8000)
              tracked_chat empty_browser)
   \<and> messages (fst (projr (handleSendMessage_response tracked_chat closing_response
                 (clock_at 8000) tracked_chat empty_browser)))
       = [server_m1\<lparr>msg_researchProgress := Some (progress_now\<lparr>duration := Some 7\<rparr>)\<rparr>]
   \<and> progress_now\<lparr>duration := Some 7\<rparr> \<noteq> progress_42"
  by (simp add: handleSendMessage_response_def closing_response_def tracked_chat_def
      example_chat_def attach_completion_def server_m1_def local_m1_def clock_at_def
      progress_42_def progress_now_def reconcile_def new_Map_def map_get_def)

text \<open>
  Claim C1, amended. A response that carries messages is processed without failure and
  replaces the transcript by the reconciled list of the service's messages, except that,
  when the completion marker is due and the last message is an assistant message, the
  last message carries the final progress with the elapsed duration instead. In the
  reconciled list every message of the service keeps its id, role, content and timestamp;
  it takes the progress of the last local message with its id when that message has one
  (also over a progress of its own), and keeps its own progress otherwise, in particular
  when no local message has its id. So a message of the service without progress whose id
  is that of a local message carries the local progress in the resulting transcript,
  unless it is the last message and the marker rewrites it. The local \<open>m1\<close> with duration
  42 and the service's \<open>m1\<close> without progress merge into \<open>m1\<close> with that progress.
\<close>

theorem reconciled_transcript:
  assumes "assistantMessages response = Some auth" and "auth \<noteq> []"
  shows "(\<exists>st' b' eff.
            handleSendMessage_response env response clk st b = Inr (st', b', eff)
          \<and> messages st' =
              (if completion_due env response st \<and> msg_role (last auth) = Assistant
               then butlast (reconcile auth (messages st))
                    @ [(last (reconcile auth (messages st)))
                         \<lparr>msg_researchProgress :=
                            Some ((the (finalProgress_of response st))
                                    \<lparr>duration := Some (elapsed_seconds env clk)\<rparr>)\<rparr>]
               else reconcile auth (messages st))
          \<and> (\<forall>i xs m ys.
                messages st = xs @ m # ys \<and> (\<forall>y\<in>set ys. msg_id y \<noteq> msg_id m)
                \<and> i < length auth \<and> msg_id (auth ! i) = msg_id m
                \<and> msg_researchProgress (auth ! i) = None
                \<and> (i + 1 < length auth
                    \<or> \<not> (completion_due env response st \<and> msg_role (last auth) = Assistant))
                \<longrightarrow> msg_researchProgress (messages st' ! i) = msg_researchProgress m))
       \<and> reconcile auth (messages st) =
           map (\<lambda>msg. msg\<lparr>msg_researchProgress :=
                  (case List.find (\<lambda>m. msg_id m = msg_id msg) (rev (messages st)) of
                     Some m \<Rightarrow> (case msg_researchProgress m of
                                  Some p \<Rightarrow> Some p
                                | None \<Rightarrow> msg_researchProgress msg)
                   | None \<Rightarrow> msg_researchProgress msg)\<rparr>) auth
       \<and> reconcile [server_m1] [local_m1] = [server_m1\<lparr>msg_researchProgress := Some progress_42\<rparr>]"
proof -
  let ?R = "handleSendMessage_response env response clk st b"
  let ?rec = "reconcile auth (messages st)"
  let ?due = "completion_due env response st \<and> msg_role (last auth) = Assistant"
  let ?new = "(last ?rec)\<lparr>msg_researchProgress :=
                 Some ((the (finalProgress_of response st))\<lparr>duration := Some (elapsed_seconds env clk)\<rparr>)\<rparr>"
  have base: "(case assistantMessages response of
              Some auth \<Rightarrow> if length auth > 0 then reconcile auth (messages st) else messages st
            | None \<Rightarrow> messages st) = ?rec"
    using assms by simp
  have ne: "?rec \<noteq> []" using assms(2) by (simp add: reconcile_def)
  have len: "length ?rec = length auth" by (rule reconcile_length)
  have "\<not> isl ?R" unfolding response_isl base using ne by simp
  from response_result [OF this] obtain st' b' eff
    where r: "?R = Inr (st', b', eff)" and s: "st' = fst (projr ?R)" by blast
  have m: "messages st' = (if ?due then butlast ?rec @ [?new] else ?rec)"
    unfolding s response_messages_exact [OF base ne] reconcile_last_role [OF assms(2)] ..
  have reuse: "msg_researchProgress (messages st' ! i) = msg_researchProgress m'"
    if p: "messages st = xs @ m' # ys" "\<forall>y\<in>set ys. msg_id y \<noteq> msg_id m'"
      "i < length auth" "msg_id (auth ! i) = msg_id m'" "msg_researchProgress (auth ! i) = None"
      and c: "i + 1 < length auth \<or> \<not> ?due"
    for i xs m' ys
  proof -
    have "messages st' ! i = ?rec ! i"
    proof (cases ?due)
      case False
      with m show ?thesis by simp
    next
      case True
      with c have "i < length (butlast ?rec)" using len by simp
      then have "(butlast ?rec @ [?new]) ! i = ?rec ! i"
        by (simp add: nth_append nth_butlast)
      with m True show ?thesis by simp
    qed
    with reconcile_reuses [OF p] show ?thesis by simp
  qed
  from r m reuse have first: "\<exists>st' b' eff.
            ?R = Inr (st', b', eff)
          \<and> messages st' = (if ?due then butlast ?rec @ [?new] else ?rec)
          \<and> (\<forall>i xs m ys.
                messages st = xs @ m # ys \<and> (\<forall>y\<in>set ys. msg_id y \<noteq> msg_id m)
                \<and> i < length auth \<and> msg_id (auth ! i) = msg_id m
                \<and> msg_researchProgress (auth ! i) = None
                \<and> (i + 1 < length auth \<or> \<not> ?due)
                \<longrightarrow> msg_researchProgress (messages st' ! i) = msg_researchProgress m)"
    by blast
  from first reconcile_exact [of auth "messages st"] reconcile_example show ?thesis
    by (intro conjI)
qed

theorem reconciled_transcript_witness:
  "\<not> isl (handleSendMessage_response example_chat server_response (clock_at 43000) example_chat
            empty_browser)
   \<and> messages (fst (projr (handleSendMessage_response example_chat server_response
                 (clock_at 43000) example_chat empty_browser)))
       = [server_m1\<lparr>msg_researchProgress := Some progress_42\<rparr>]"
proof -
  have a: "assistantMessages server_response = Some [server_m1]"
    by (simp add: server_response_def)
  have n: "[server_m1] \<noteq> []" by simp
  have d: "\<not> completion_due example_chat server_response example_chat"
    by (simp add: completion_due_def example_chat_def)
  have m: "messages example_chat = [local_m1]" by (simp add: example_chat_def)
  note t = reconciled_transcript [OF a n, of example_chat "clock_at 43000" example_chat empty_browser]
  note e = t [THEN conjunct2, THEN conjunct2]
  from t [THEN conjunct1] obtain st' b' eff
    where r: "handleSendMessage_response example_chat server_response (clock_at 43000) example_chat
                empty_browser = Inr (st', b', eff)"
      and s: "messages st' = reconcile [server_m1] (messages example_chat)"
    using d by auto
  from r s show ?thesis unfolding m e by simp
qed

text \<open>
  Claim C10, as stated, fails: a response without messages does not replace the
  transcript, but the completion marker of the same response can still rewrite the last
  message. Here the handler was created while researching, the transcript is the
  service's \<open>m1\<close>, and the response has no messages, status done and a progress record:
  the last message receives the progress with the elapsed 42 seconds.
\<close>

theorem empty_response_changes_transcript:
  "assistantMessages empty_done_response = Some []
   \<and> messages researching_chat = [server_m1]
   \<and> \<not> isl (handleSendMessage_response researching_chat empty_done_response (clock_at 43000)
              researching_chat empty_browser)
   \<and> messages (fst (projr (handleSendMessage_response researching_chat empty_done_response
                 (clock_at 43000) researching_chat empty_browser)))
       = [server_m1\<lparr>msg_researchProgress := Some (progress_42\<lparr>duration := Some 42\<rparr>)\<rparr>]
   \<and> messages (fst (projr (handleSendMessage_response researching_chat empty_done_response
                 (clock_at 43000) researching_chat empty_browser)))
       \<noteq> messages researching_chat"
  by (simp add: handleSendMessage_response_def empty_done_response_def researching_chat_def
      example_chat_def attach_completion_def server_m1_def clock_at_def progress_42_def)

text \<open>
  Claim C10, amended. For a response whose message list is absent or empty, arriving on a
  transcript that is not empty or when no completion marker is due, the response is
  processed without failure and no replacement occurs. The transcript is exactly as
  before, unless the marker is due (the handler was created while researching, the
  response reports a status other than researching, and a progress record is available:
  that of the response, or else the latest one tracked) and the last message is an
  assistant message; then all messages but the last are as before and the last one carries
  that progress record with the duration (now minus the research start time, in seconds).
\<close>

theorem empty_response_transcript:
  assumes "assistantMessages response = None \<or> assistantMessages response = Some []"
    and "messages st \<noteq> [] \<or> \<not> completion_due env response st"
  shows "\<exists>st' b' eff.
           handleSendMessage_response env response clk st b = Inr (st', b', eff)
         \<and> messages st' =
             (if completion_due env response st \<and> msg_role (last (messages st)) = Assistant
              then butlast (messages st)
                   @ [(last (messages st))
                        \<lparr>msg_researchProgress :=
                           Some ((the (finalProgress_of response st))
                                   \<lparr>duration := Some (elapsed_seconds env clk)\<rparr>)\<rparr>]
              else messages st)"
proof -
  let ?R = "handleSendMessage_response env response clk st b"
  have base: "(case assistantMessages response of
              Some auth \<Rightarrow> if length auth > 0 then reconcile auth (messages st) else messages st
            | None \<Rightarrow> messages st) = messages st"
    using assms(1) by auto
  have ok: "\<not> isl ?R" unfolding response_isl base using assms(2) by auto
  from response_result [OF ok] obtain st' b' eff
    where r: "?R = Inr (st', b', eff)" and s: "st' = fst (projr ?R)" by blast
  show ?thesis
  proof (cases "messages st = []")
    case False
    from r response_messages_exact [OF base False, of env clk b] s show ?thesis by blast
  next
    case True
    with assms(2) have nd: "\<not> completion_due env response st" by simp
    from response_messages_not_due [OF nd, of clk b] base s
    have "messages st' = messages st" by simp
    with r nd show ?thesis by auto
  qed
qed

theorem empty_response_transcript_witness:
  "\<not> isl (handleSendMessage_response researching_chat empty_done_response (clock_at 43000)
            researching_chat empty_browser)
   \<and> completion_due researching_chat empty_done_response researching_chat
   \<and> messages (fst (projr (handleSendMessage_response researching_chat empty_done_response
                 (clock_at 43000) researching_chat empty_browser)))
       = [server_m1\<lparr>msg_researchProgress := Some (progress_42\<lparr>duration := Some 42\<rparr>)\<rparr>]"
proof -
  have a: "assistantMessages empty_done_response = None \<or> assistantMessages empty_done_response = Some []"
    by (simp add: empty_done_response_def)
  have m: "messages researching_chat = [server_m1]"
    by (simp add: researching_chat_def)
  have n: "messages researching_chat \<noteq> [] \<or> \<not> completion_due researching_chat empty_done_response researching_chat"
    unfolding m by simp
  have d: "completion_due researching_chat empty_done_response researching_chat"
    by (simp add: completion_due_def finalProgress_of_def researching_chat_def
        empty_done_response_def)
  have f: "the (finalProgress_of empty_done_response researching_chat) = progress_42\<lparr>duration := None\<rparr>"
    by (simp add: finalProgress_of_def empty_done_response_def)
  have e: "elapsed_seconds researching_chat (clock_at 43000) = 42"
    by (simp add: elapsed_seconds_def researching_chat_def example_chat_def clock_at_def)
  have ro: "msg_role (last [server_m1]) = Assistant" by (simp add: server_m1_def)
  from empty_response_transcript [OF a n, of "clock_at 43000" empty_browser] obtain st' b' eff
    where r: "handleSendMessage_response researching_chat empty_done_response (clock_at 43000)
                researching_chat empty_browser = Inr (st', b', eff)"
      and s: "messages st' =
             (if completion_due researching_chat empty_done_response researching_chat
                 \<and> msg_role (last (messages researching_chat)) = Assistant
              then butlast (messages researching_chat)
                   @ [(last (messages researching_chat))
                        \<lparr>msg_researchProgress :=
                           Some ((the (finalProgress_of empty_done_response researching_chat))
                                   \<lparr>duration := Some (elapsed_seconds researching_chat (clock_at 43000))\<rparr>)\<rparr>]
              else messages researching_chat)"
    by blast
  from s have "messages st' = [server_m1\<lparr>msg_researchProgress := Some (progress_42\<lparr>duration := Some 42\<rparr>)\<rparr>]"
    unfolding m f e using d ro by simp
  with r d show ?thesis by simp
qed

subsection \<open>Failure of the dispatch\<close>



subsection \<open>The continuation timer\<close>

lemma switched_chat_eval:
  "switched_chat = researching_chat
     \<lparr>selectedPlanId := Some ''plan-2'', messages := [welcome_message None (clock_at 43050)],
      isResearching := False, currentPlan := None\<rparr>"
  by (simp add: switched_chat_def switch_binding_def binding_effect_def history_resolved_def
      researching_chat_def example_chat_def example_user_def truthy_def getPlansForUser_def
      array_find_def empty_browser_def Let_def)

lemma continuation_content: "trim ''[CONTINUE_RESEARCH]'' \<noteq> []"
  by (simp add: trim_def is_space_def)

text \<open>
  Claim C2, as stated, fails: the timer callback makes no check of the binding. A
  continuation scheduled by a render bound to \<open>plan-1\<close> that fires after the switch to
  \<open>plan-2\<close> dispatches the sentinel for \<open>plan-1\<close> and sets the live component to
  researching.
\<close>

theorem stale_continuation_dispatches:
  "selectedPlanId researching_chat = Some ''plan-1''
   \<and> selectedPlanId switched_chat = Some ''plan-2''
   \<and> isResearching switched_chat = False
   \<and> snd (continuation_fires researching_chat (clock_at 43100) switched_chat)
       = Some \<lparr>req_userId = ''user-1'', req_planId = Some ''plan-1'',
               req_message = ''[CONTINUE_RESEARCH]'', req_conversationId = None,
               req_fileIds = []\<rparr>
   \<and> isResearching (fst (continuation_fires researching_chat (clock_at 43100) switched_chat)) = True
   \<and> fst (continuation_fires researching_chat (clock_at 43100) switched_chat) \<noteq> switched_chat"
proof -
  have a: "continuation_fires researching_chat (clock_at 43100) switched_chat
     = (switched_chat\<lparr>isResearching := True\<rparr>,
        Some \<lparr>req_userId = ''user-1'', req_planId = Some ''plan-1'',
               req_message = ''[CONTINUE_RESEARCH]'', req_conversationId = None,
               req_fileIds = []\<rparr>)"
    using continuation_content
    by (simp add: continuation_fires_def handleSendMessage_begin_def messageContent_of_def
        truthy_def researching_chat_def example_chat_def example_user_def Let_def)
  have b: "isResearching switched_chat = False" "selectedPlanId switched_chat = Some ''plan-2''"
    by (simp_all add: switched_chat_eval)
  have c: "selectedPlanId researching_chat = Some ''plan-1''"
    by (simp add: researching_chat_def example_chat_def)
  have d: "switched_chat\<lparr>isResearching := True\<rparr> \<noteq> switched_chat"
  proof
    assume "switched_chat\<lparr>isResearching := True\<rparr> = switched_chat"
    then have "isResearching (switched_chat\<lparr>isResearching := True\<rparr>) = isResearching switched_chat"
      by simp
    with b show False by simp
  qed
  from a b c d show ?thesis by simp
qed

text \<open>
  Claim C2, amended. A continuation that fires does not compare the binding it was
  scheduled for with the active one: whenever the render that scheduled it had a user, it
  dispatches the sentinel with the plan id (or conversation id) and the attachments of
  that render, the same request whatever the live state is, and sets the live research
  status to researching; it does not touch the transcript or the active plan id.
\<close>

theorem continuation_dispatches_unguarded:
  assumes "currentUser env = Some u"
  shows "snd (continuation_fires env clk st)
           = Some \<lparr>req_userId = user_id u, req_planId = selectedPlanId env,
                   req_message = ''[CONTINUE_RESEARCH]'',
                   req_conversationId =
                     (if truthy (selectedPlanId env) then None
                      else Some (if tempConversationId env = []
                                 then ''new-'' @ int_toString (now_ms clk) @ ''-'' @ random_suffix clk
                                 else tempConversationId env)),
                   req_fileIds = map file_id (attachedFiles env)\<rparr>
       \<and> isResearching (fst (continuation_fires env clk st)) = True
       \<and> messages (fst (continuation_fires env clk st)) = messages st
       \<and> selectedPlanId (fst (continuation_fires env clk st)) = selectedPlanId st
       \<and> snd (continuation_fires env clk st) = snd (continuation_fires env clk st2)"
  using assms continuation_content
  by (simp add: continuation_fires_def handleSendMessage_begin_def messageContent_of_def
      truthy_def Let_def)

theorem continuation_dispatches_unguarded_witness:
  "snd (continuation_fires researching_chat (clock_at 43100) switched_chat)
     = snd (continuation_fires researching_chat (clock_at 43100) researching_chat)
   \<and> isResearching (fst (continuation_fires researching_chat (clock_at 43100) switched_chat)) = True
   \<and> messages (fst (continuation_fires researching_chat (clock_at 43100) switched_chat))
       = [welcome_message None (clock_at 43050)]"
proof -
  have u: "currentUser researching_chat = Some example_user"
    by (simp add: researching_chat_def example_chat_def)
  have m: "messages switched_chat = [welcome_message None (clock_at 43050)]"
    by (simp add: switched_chat_eval)
  note t = continuation_dispatches_unguarded [OF u, of "clock_at 43100" switched_chat researching_chat]
  from t have a: "snd (continuation_fires researching_chat (clock_at 43100) switched_chat)
     = snd (continuation_fires researching_chat (clock_at 43100) researching_chat)"
    by (elim conjE)
  from t have b: "isResearching (fst (continuation_fires researching_chat (clock_at 43100) switched_chat)) = True"
    by (elim conjE)
  from t have c: "messages (fst (continuation_fires researching_chat (clock_at 43100) switched_chat))
       = messages switched_chat"
    by (elim conjE)
  from a b c [unfolded m] show ?thesis by (intro conjI)
qed

section \<open>Properties of the binding switch\<close>

lemma welcome_texts_differ: "welcome_back co \<noteq> welcome_plain"
  by (simp add: welcome_back_def welcome_plain_def)

text \<open>
  Claim C7, as stated, fails: with the same plan id bound, the same user and an empty
  history, the seeded message is the greeting of a returning user naming the company when
  the plan is in local storage and the greeting of a first visit when it is not. Whether
  a plan id is bound does not alone determine the variant.
\<close>

theorem welcome_variant_depends_on_store:
  "selectedPlanId example_chat = Some ''plan-1''
   \<and> messages (switch_binding (clock_at 43000) (clock_at 43050) (Some empty_history)
                 stored_browser example_chat)
       = [welcome_message (Some example_plan) (clock_at 43050)]
   \<and> messages (switch_binding (clock_at 43000) (clock_at 43050) (Some empty_history)
                 empty_browser example_chat)
       = [welcome_message None (clock_at 43050)]
   \<and> msg_content (welcome_message (Some example_plan) (clock_at 43050)) = welcome_back ''Acme''
   \<and> msg_content (welcome_message None (clock_at 43050)) = welcome_plain
   \<and> welcome_back ''Acme'' \<noteq> welcome_plain"
  using welcome_texts_differ [of "''Acme''"]
  by (simp add: switch_binding_def binding_effect_def history_resolved_def example_chat_def
      example_user_def empty_history_def stored_browser_def empty_browser_def example_plan_def
      truthy_def getPlansForUser_def array_find_def welcome_message_def Let_def)

text \<open>
  Claim C7, amended. After a switch of the binding whose history is empty (or whose
  request fails, or that requests nothing because no plan id is bound) the transcript is
  exactly one welcome message of the assistant. With a user signed in its id is
  \<open>welcome\<close> when a plan id is bound and \<open>welcome-new\<close> otherwise. With a plan id bound
  its text is the returning greeting with the company of the plan found in the user's
  local storage, and the first-visit greeting when no such plan is found; without a plan
  id it is the text of a new session and a fresh conversation id is minted.
\<close>

theorem switch_seeds_one_welcome:
  assumes "fetched = None \<or> (\<exists>data. fetched = Some data \<and> hist_messages data = [])"
  shows "messages (switch_binding clk clk' fetched b st)
           = [if truthy (selectedPlanId st) \<and> currentUser st \<noteq> None
              then welcome_message
                     (array_find (\<lambda>p. plan_id p = the (selectedPlanId st))
                        (getPlansForUser (user_id (the (currentUser st))) (local_plans b))) clk'
              else welcome_new_message clk]
       \<and> length (messages (switch_binding clk clk' fetched b st)) = 1
       \<and> msg_role (hd (messages (switch_binding clk clk' fetched b st))) = Assistant
       \<and> (currentUser st \<noteq> None \<longrightarrow>
            msg_id (hd (messages (switch_binding clk clk' fetched b st)))
              = (if truthy (selectedPlanId st) then ''welcome'' else ''welcome-new''))
       \<and> (truthy (selectedPlanId st) \<and> currentUser st \<noteq> None \<longrightarrow>
            msg_content (hd (messages (switch_binding clk clk' fetched b st)))
              = (case array_find (\<lambda>p. plan_id p = the (selectedPlanId st))
                        (getPlansForUser (user_id (the (currentUser st))) (local_plans b)) of
                   Some p \<Rightarrow> welcome_back (company p)
                 | None \<Rightarrow> welcome_plain))
       \<and> (\<not> truthy (selectedPlanId st) \<longrightarrow>
            msg_content (hd (messages (switch_binding clk clk' fetched b st))) = welcome_new_text
          \<and> tempConversationId (switch_binding clk clk' fetched b st)
              = ''new-'' @ int_toString (now_ms clk) @ ''-'' @ random_suffix clk)"
  using assms
  by (auto simp: switch_binding_def binding_effect_def history_resolved_def history_rejected_def
      welcome_message_def welcome_new_message_def Let_def split: option.splits)

theorem switch_seeds_one_welcome_witness:
  "messages (switch_binding (clock_at 43000) (clock_at 43050) (Some empty_history) stored_browser
              example_chat)
     = [welcome_message (Some example_plan) (clock_at 43050)]
   \<and> msg_id (hd (messages (switch_binding (clock_at 43000) (clock_at 43050) (Some empty_history)
                 stored_browser example_chat))) = ''welcome''"
proof -
  have f: "Some empty_history = None \<or> (\<exists>data. Some empty_history = Some data \<and> hist_messages data = [])"
    by (simp add: empty_history_def)
  note t = switch_seeds_one_welcome [OF f, of "clock_at 43000" "clock_at 43050" stored_browser example_chat]
  have s: "truthy (selectedPlanId example_chat)" and u: "currentUser example_chat \<noteq> None"
    by (simp_all add: example_chat_def truthy_def)
  have p: "array_find (\<lambda>p. plan_id p = the (selectedPlanId example_chat))
             (getPlansForUser (user_id (the (currentUser example_chat))) (local_plans stored_browser))
           = Some example_plan"
    by (simp add: example_chat_def example_user_def stored_browser_def empty_browser_def
        example_plan_def getPlansForUser_def array_find_def)
  from t have a: "messages (switch_binding (clock_at 43000) (clock_at 43050) (Some empty_history)
                 stored_browser example_chat)
           = [if truthy (selectedPlanId example_chat) \<and> currentUser example_chat \<noteq> None
              then welcome_message
                     (array_find (\<lambda>p. plan_id p = the (selectedPlanId example_chat))
                        (getPlansForUser (user_id (the (currentUser example_chat)))
                           (local_plans stored_browser))) (clock_at 43050)
              else welcome_new_message (clock_at 43000)]"
    by (elim conjE)
  from t u have b: "msg_id (hd (messages (switch_binding (clock_at 43000) (clock_at 43050)
               (Some empty_history) stored_browser example_chat)))
              = (if truthy (selectedPlanId example_chat) then ''welcome'' else ''welcome-new'')"
    by (elim conjE) simp
  from a b s u p show ?thesis by simp
qed

section \<open>Properties of the mention resolver\<close>

lemma substring_take: "0 \<le> i \<Longrightarrow> substring s 0 i = take (nat i) s"
  by (simp add: substring_def Let_def min_def max_def)

lemma substring_from_drop: "0 \<le> i \<Longrightarrow> substring_from s i = drop (nat i) s"
  by (auto simp: substring_from_def substring_def Let_def min_def max_def)

lemma array_find_None: "(array_find P xs = None) = (\<not> (\<exists>x\<in>set xs. P x))"
  by (auto simp: array_find_def find_None_iff)

lemma mention_example_open:
  "handleInputChange ''see @rep'' 8 mention_chat
     = mention_chat\<lparr>inputValue := ''see @rep'', mentionQuery := Some ''rep'', mentionIndex := 4\<rparr>"
  by (simp add: handleInputChange_def lastIndexOf_def substring_def Let_def upt_rec)

lemma mention_example_candidates:
  "mention_candidates (handleInputChange ''see @rep'' 8 mention_chat) = Some [report_pdf]"
  unfolding mention_example_open
  by (simp add: mention_candidates_def mention_chat_def example_chat_def report_pdf_def
      notes_txt_def file_label_def toLowerCase_def lower_char_def array_find_def)

lemma mention_example_select:
  "handleMentionSelect report_pdf (handleInputChange ''see @rep'' 8 mention_chat)
     = mention_chat\<lparr>inputValue := ''see @report.pdf '', mentionQuery := None,
         mentionIndex := - 1, attachedFiles := [report_pdf]\<rparr>"
  unfolding mention_example_open
  by (simp add: handleMentionSelect_def mention_chat_def example_chat_def report_pdf_def
      file_label_def substring_def substring_from_def array_find_def Let_def)

lemma mention_select_general:
  assumes "mentionIndex st \<noteq> - 1"
  shows "mentionQuery (handleMentionSelect f st) = None"
    and "mentionIndex (handleMentionSelect f st) = - 1"
    and "mention_candidates (handleMentionSelect f st) = None"
    and "attachedFiles (handleMentionSelect f st)
           = (if \<exists>g\<in>set (attachedFiles st). file_id g = file_id f
              then attachedFiles st else attachedFiles st @ [f])"
    and "0 \<le> mentionIndex st \<Longrightarrow>
           inputValue (handleMentionSelect f st)
             = take (nat (mentionIndex st)) (inputValue st)
               @ ''@'' @ file_label f ''file'' @ '' ''
               @ drop (nat (mentionIndex st)
                       + (case mentionQuery st of Some q \<Rightarrow> length q | None \<Rightarrow> 0) + 1)
                   (inputValue st)"
proof -
  show "mentionQuery (handleMentionSelect f st) = None"
    using assms by (simp add: handleMentionSelect_def Let_def)
  show "mentionIndex (handleMentionSelect f st) = - 1"
    using assms by (simp add: handleMentionSelect_def Let_def)
  show "mention_candidates (handleMentionSelect f st) = None"
    using assms by (simp add: handleMentionSelect_def mention_candidates_def Let_def)
  show "attachedFiles (handleMentionSelect f st)
           = (if \<exists>g\<in>set (attachedFiles st). file_id g = file_id f
              then attachedFiles st else attachedFiles st @ [f])"
    using assms by (simp add: handleMentionSelect_def Let_def array_find_None)
  assume nn: "0 \<le> mentionIndex st"
  have q: "0 \<le> mentionIndex st + (case mentionQuery st of Some q \<Rightarrow> int (length q) | None \<Rightarrow> 0) + 1"
    using nn by (simp split: option.splits)
  have e: "nat (mentionIndex st + (case mentionQuery st of Some q \<Rightarrow> int (length q) | None \<Rightarrow> 0) + 1)
         = nat (mentionIndex st) + (case mentionQuery st of Some q \<Rightarrow> length q | None \<Rightarrow> 0) + 1"
    using nn by (simp split: option.splits add: nat_add_distrib)
  show "inputValue (handleMentionSelect f st)
             = take (nat (mentionIndex st)) (inputValue st)
               @ ''@'' @ file_label f ''file'' @ '' ''
               @ drop (nat (mentionIndex st)
                       + (case mentionQuery st of Some q \<Rightarrow> length q | None \<Rightarrow> 0) + 1)
                   (inputValue st)"
    using assms
    by (simp add: handleMentionSelect_def Let_def substring_take [OF nn]
        substring_from_drop [OF q] e)
qed

text \<open>
  Claim C9. Selecting a candidate while a mention is open closes the suggestion state
  (no query, index \<open>-1\<close>, no menu), adds the file to the pending attachments unless a file
  with its id is there already, and replaces the partial token: the input becomes the
  text before the \<open>@\<close>, then \<open>@\<close>, the file name and a space, then the text after the
  token. With the input \<open>see @rep\<close>, the caret at its end and the files \<open>report.pdf\<close> and
  \<open>notes.txt\<close> available, the query is \<open>rep\<close> at index 4, the candidates are exactly
  \<open>report.pdf\<close>, and selecting it gives the input \<open>see @report.pdf \<close> with \<open>report.pdf\<close>
  pending and the suggestions closed.
\<close>

theorem mention_resolution:
  "(mentionIndex st \<noteq> - 1 \<longrightarrow>
      mentionQuery (handleMentionSelect f st) = None
    \<and> mentionIndex (handleMentionSelect f st) = - 1
    \<and> mention_candidates (handleMentionSelect f st) = None
    \<and> attachedFiles (handleMentionSelect f st)
           = (if \<exists>g\<in>set (attachedFiles st). file_id g = file_id f
              then attachedFiles st else attachedFiles st @ [f])
    \<and> (0 \<le> mentionIndex st \<longrightarrow>
           inputValue (handleMentionSelect f st)
             = take (nat (mentionIndex st)) (inputValue st)
               @ ''@'' @ file_label f ''file'' @ '' ''
               @ drop (nat (mentionIndex st)
                       + (case mentionQuery st of Some q \<Rightarrow> length q | None \<Rightarrow> 0) + 1)
                   (inputValue st)))
   \<and> mentionQuery (handleInputChange ''see @rep'' 8 mention_chat) = Some ''rep''
   \<and> mentionIndex (handleInputChange ''see @rep'' 8 mention_chat) = 4
   \<and> mention_candidates (handleInputChange ''see @rep'' 8 mention_chat) = Some [report_pdf]
   \<and> handleMentionSelect report_pdf (handleInputChange ''see @rep'' 8 mention_chat)
       = mention_chat\<lparr>inputValue := ''see @report.pdf '', mentionQuery := None,
           mentionIndex := - 1, attachedFiles := [report_pdf]\<rparr>
   \<and> mention_candidates
         (handleMentionSelect report_pdf (handleInputChange ''see @rep'' 8 mention_chat)) = None"
proof -
  have g: "mentionIndex st \<noteq> - 1 \<longrightarrow>
      mentionQuery (handleMentionSelect f st) = None
    \<and> mentionIndex (handleMentionSelect f st) = - 1
    \<and> mention_candidates (handleMentionSelect f st) = None
    \<and> attachedFiles (handleMentionSelect f st)
           = (if \<exists>g\<in>set (attachedFiles st). file_id g = file_id f
              then attachedFiles st else attachedFiles st @ [f])
    \<and> (0 \<le> mentionIndex st \<longrightarrow>
           inputValue (handleMentionSelect f st)
             = take (nat (mentionIndex st)) (inputValue st)
               @ ''@'' @ file_label f ''file'' @ '' ''
               @ drop (nat (mentionIndex st)
                       + (case mentionQuery st of Some q \<Rightarrow> length q | None \<Rightarrow> 0) + 1)
                   (inputValue st))"
    using mention_select_general [of st f] by blast
  have o1: "mentionQuery (handleInputChange ''see @rep'' 8 mention_chat) = Some ''rep''"
    and o2: "mentionIndex (handleInputChange ''see @rep'' 8 mention_chat) = 4"
    unfolding mention_example_open by simp_all
  have c2: "mention_candidates
         (handleMentionSelect report_pdf (handleInputChange ''see @rep'' 8 mention_chat)) = None"
    unfolding mention_example_select by (simp add: mention_candidates_def)
  from g o1 o2 mention_example_candidates mention_example_select c2 show ?thesis
    by (intro conjI)
qed

theorem mention_resolution_witness:
  "inputValue (handleMentionSelect report_pdf (handleInputChange ''see @rep'' 8 mention_chat))
     = ''see @report.pdf ''
   \<and> attachedFiles (handleMentionSelect report_pdf (handleInputChange ''see @rep'' 8 mention_chat))
     = [report_pdf]
   \<and> mentionQuery (handleMentionSelect report_pdf (handleInputChange ''see @rep'' 8 mention_chat))
     = None"
proof -
  let ?st = "handleInputChange ''see @rep'' 8 mention_chat"
  note t = mention_resolution [of ?st report_pdf]
  note q = t [THEN conjunct2, THEN conjunct1]
  note i = t [THEN conjunct2, THEN conjunct2, THEN conjunct1]
  have v: "inputValue ?st = ''see @rep''" and a: "attachedFiles ?st = []"
    by (simp_all add: handleInputChange_def mention_chat_def example_chat_def Let_def)
  have n: "mentionIndex ?st \<noteq> - 1" and z: "0 \<le> mentionIndex ?st" unfolding i by simp_all
  note g = t [THEN conjunct1, THEN mp, OF n]
  note g1 = g [THEN conjunct1]
  note g4 = g [THEN conjunct2, THEN conjunct2, THEN conjunct2, THEN conjunct1]
  note g5 = g [THEN conjunct2, THEN conjunct2, THEN conjunct2, THEN conjunct2, THEN mp, OF z]
  have x: "inputValue (handleMentionSelect report_pdf ?st) = ''see @report.pdf ''"
    unfolding g5 i q v by (simp add: file_label_def report_pdf_def)
  have y: "attachedFiles (handleMentionSelect report_pdf ?st) = [report_pdf]"
    unfolding g4 a by simp
  from x y g1 show ?thesis by (intro conjI)
qed

end
